theory Spec2Isabelle
  imports Main "HOL-Library.Sublist" "HOL-Library.AList"
begin

section \<open>JavaScript values and string primitives\<close>

text \<open>
  Strings are byte lists holding UTF-8 text: an ASCII character is one \<^typ>\<open>char\<close>, a Thai
  character is three. On well-formed text, substring and equality tests on the bytes agree
  with the tests JavaScript performs on UTF-16 code units.

  A cell of a sheet, as the spreadsheet reader hands it to the service, is \<open>undefined\<close>
  (an absent property), \<open>null\<close>, a boolean, a number or a string. Numbers are modelled as
  integers (below \<open>10^21\<close> in magnitude, where \<open>String\<close> prints plain decimal digits);
  fractional cells are outside the model.
\<close>

datatype jsval = Undefined | Null | Bool bool | Num int | Str string

text \<open>Truthiness, as used by \<open>if (v)\<close>, \<open>v || d\<close> and \<open>v ? a : b\<close>.\<close>

fun truthy :: "jsval \<Rightarrow> bool" where
  "truthy Undefined = False"
| "truthy Null = False"
| "truthy (Bool b) = b"
| "truthy (Num n) = (n \<noteq> 0)"
| "truthy (Str s) = (s \<noteq> [])"

fun natToString :: "nat \<Rightarrow> string" where
  "natToString n =
     (if n < 10 then [''0123456789'' ! n]
      else natToString (n div 10) @ [''0123456789'' ! (n mod 10)])"

declare natToString.simps [simp del]

definition intToString :: "int \<Rightarrow> string" where
  "intToString i = (if i < 0 then CHR ''-'' # natToString (nat (- i)) else natToString (nat i))"

text \<open>\<open>String(v)\<close>.\<close>

fun toStr :: "jsval \<Rightarrow> string" where
  "toStr Undefined = ''undefined''"
| "toStr Null = ''null''"
| "toStr (Bool b) = (if b then ''true'' else ''false'')"
| "toStr (Num n) = intToString n"
| "toStr (Str s) = s"

text \<open>
  \<open>s.toLowerCase()\<close>: the ASCII capitals are lowered, every other byte is kept. The
  keyword lists of the service are ASCII and Thai, and Thai script has no case.
\<close>

definition lowerChar :: "char \<Rightarrow> char" where
  "lowerChar c =
     (case map_of (zip ''ABCDEFGHIJKLMNOPQRSTUVWXYZ'' ''abcdefghijklmnopqrstuvwxyz'') c of
        Some d \<Rightarrow> d
      | None \<Rightarrow> c)"

definition toLowerCase :: "string \<Rightarrow> string" where
  "toLowerCase s = map lowerChar s"

text \<open>\<open>s.includes(t)\<close>: \<open>t\<close> occurs in \<open>s\<close> as a contiguous block.\<close>

fun js_includes :: "string \<Rightarrow> string \<Rightarrow> bool" where
  "js_includes [] t = (t = [])"
| "js_includes (c # s) t = (prefix t (c # s) \<or> js_includes s t)"

text \<open>
  White space as \<open>trim\<close> and the pattern \<open>\s\<close> see it, restricted to its ASCII members:
  tab, line feed, vertical tab, form feed, carriage return and space.
\<close>

definition isSpace :: "char \<Rightarrow> bool" where
  "isSpace c = (c \<in> set [CHR 0x09, CHR 0x0A, CHR 0x0B, CHR 0x0C, CHR 0x0D, CHR 0x20])"

definition trim :: "string \<Rightarrow> string" where
  "trim s = rev (dropWhile isSpace (rev (dropWhile isSpace s)))"

text \<open>\<open>s.split(c)\<close> for a one-character separator: never empty, \<open>''''.split(c) = ['''']\<close>.\<close>

fun split :: "char \<Rightarrow> string \<Rightarrow> string list" where
  "split c [] = [[]]"
| "split c (x # xs) =
     (if x = c then [] # split c xs
      else (case split c xs of
              [] \<Rightarrow> [[x]]
            | p # ps \<Rightarrow> (x # p) # ps))"

section \<open>Thai keywords\<close>

text \<open>
  The Thai literals of the service, as UTF-8. Each is named by a transliteration; the
  comment gives the code points.
\<close>

definition th_chue :: string where \<comment> \<open>U+0E0A U+0E37 U+0E48 U+0E2D\<close>
  "th_chue = [CHR 0xE0, CHR 0xB8, CHR 0x8A, CHR 0xE0, CHR 0xB8, CHR 0xB7, CHR 0xE0, CHR 0xB9, CHR 0x88, CHR 0xE0, CHR 0xB8, CHR 0xAD]"

definition th_raikan :: string where \<comment> \<open>U+0E23 U+0E32 U+0E22 U+0E01 U+0E32 U+0E23\<close>
  "th_raikan = [CHR 0xE0, CHR 0xB8, CHR 0xA3, CHR 0xE0, CHR 0xB8, CHR 0xB2, CHR 0xE0, CHR 0xB8, CHR 0xA2, CHR 0xE0, CHR 0xB8, CHR 0x81, CHR 0xE0, CHR 0xB8, CHR 0xB2, CHR 0xE0, CHR 0xB8, CHR 0xA3]"

definition th_menu :: string where \<comment> \<open>U+0E40 U+0E21 U+0E19 U+0E39\<close>
  "th_menu = [CHR 0xE0, CHR 0xB9, CHR 0x80, CHR 0xE0, CHR 0xB8, CHR 0xA1, CHR 0xE0, CHR 0xB8, CHR 0x99, CHR 0xE0, CHR 0xB8, CHR 0xB9]"

definition th_muat :: string where \<comment> \<open>U+0E2B U+0E21 U+0E27 U+0E14\<close>
  "th_muat = [CHR 0xE0, CHR 0xB8, CHR 0xAB, CHR 0xE0, CHR 0xB8, CHR 0xA1, CHR 0xE0, CHR 0xB8, CHR 0xA7, CHR 0xE0, CHR 0xB8, CHR 0x94]"

definition th_praphet :: string where \<comment> \<open>U+0E1B U+0E23 U+0E30 U+0E40 U+0E20 U+0E17\<close>
  "th_praphet = [CHR 0xE0, CHR 0xB8, CHR 0x9B, CHR 0xE0, CHR 0xB8, CHR 0xA3, CHR 0xE0, CHR 0xB8, CHR 0xB0, CHR 0xE0, CHR 0xB9, CHR 0x80, CHR 0xE0, CHR 0xB8, CHR 0xA0, CHR 0xE0, CHR 0xB8, CHR 0x97]"

definition th_tualueak :: string where \<comment> \<open>U+0E15 U+0E31 U+0E27 U+0E40 U+0E25 U+0E37 U+0E2D U+0E01\<close>
  "th_tualueak = [CHR 0xE0, CHR 0xB8, CHR 0x95, CHR 0xE0, CHR 0xB8, CHR 0xB1, CHR 0xE0, CHR 0xB8, CHR 0xA7, CHR 0xE0, CHR 0xB9, CHR 0x80, CHR 0xE0, CHR 0xB8, CHR 0xA5, CHR 0xE0, CHR 0xB8, CHR 0xB7, CHR 0xE0, CHR 0xB8, CHR 0xAD, CHR 0xE0, CHR 0xB8, CHR 0x81]"

definition th_rakha :: string where \<comment> \<open>U+0E23 U+0E32 U+0E04 U+0E32\<close>
  "th_rakha = [CHR 0xE0, CHR 0xB8, CHR 0xA3, CHR 0xE0, CHR 0xB8, CHR 0xB2, CHR 0xE0, CHR 0xB8, CHR 0x84, CHR 0xE0, CHR 0xB8, CHR 0xB2]"

definition th_rup :: string where \<comment> \<open>U+0E23 U+0E39 U+0E1B\<close>
  "th_rup = [CHR 0xE0, CHR 0xB8, CHR 0xA3, CHR 0xE0, CHR 0xB8, CHR 0xB9, CHR 0xE0, CHR 0xB8, CHR 0x9B]"

definition th_tangkha :: string where \<comment> \<open>U+0E15 U+0E31 U+0E49 U+0E07 U+0E04 U+0E48 U+0E32\<close>
  "th_tangkha = [CHR 0xE0, CHR 0xB8, CHR 0x95, CHR 0xE0, CHR 0xB8, CHR 0xB1, CHR 0xE0, CHR 0xB9, CHR 0x89, CHR 0xE0, CHR 0xB8, CHR 0x87, CHR 0xE0, CHR 0xB8, CHR 0x84, CHR 0xE0, CHR 0xB9, CHR 0x88, CHR 0xE0, CHR 0xB8, CHR 0xB2]"

definition th_kha :: string where \<comment> \<open>U+0E04 U+0E48 U+0E32\<close>
  "th_kha = [CHR 0xE0, CHR 0xB8, CHR 0x84, CHR 0xE0, CHR 0xB9, CHR 0x88, CHR 0xE0, CHR 0xB8, CHR 0xB2]"

definition th_baht :: string where \<comment> \<open>U+0E1A U+0E32 U+0E17\<close>
  "th_baht = [CHR 0xE0, CHR 0xB8, CHR 0x9A, CHR 0xE0, CHR 0xB8, CHR 0xB2, CHR 0xE0, CHR 0xB8, CHR 0x97]"

definition th_raila :: string where \<comment> \<open>U+0E23 U+0E32 U+0E22 U+0E25 U+0E30 U+0E40 U+0E2D U+0E35 U+0E22 U+0E14\<close>
  "th_raila = [CHR 0xE0, CHR 0xB8, CHR 0xA3, CHR 0xE0, CHR 0xB8, CHR 0xB2, CHR 0xE0, CHR 0xB8, CHR 0xA2, CHR 0xE0, CHR 0xB8, CHR 0xA5, CHR 0xE0, CHR 0xB8, CHR 0xB0, CHR 0xE0, CHR 0xB9, CHR 0x80, CHR 0xE0, CHR 0xB8, CHR 0xAD, CHR 0xE0, CHR 0xB8, CHR 0xB5, CHR 0xE0, CHR 0xB8, CHR 0xA2, CHR 0xE0, CHR 0xB8, CHR 0x94]"

definition th_suanprakop :: string where \<comment> \<open>U+0E2A U+0E48 U+0E27 U+0E19 U+0E1B U+0E23 U+0E30 U+0E01 U+0E2D U+0E1A\<close>
  "th_suanprakop = [CHR 0xE0, CHR 0xB8, CHR 0xAA, CHR 0xE0, CHR 0xB9, CHR 0x88, CHR 0xE0, CHR 0xB8, CHR 0xA7, CHR 0xE0, CHR 0xB8, CHR 0x99, CHR 0xE0, CHR 0xB8, CHR 0x9B, CHR 0xE0, CHR 0xB8, CHR 0xA3, CHR 0xE0, CHR 0xB8, CHR 0xB0, CHR 0xE0, CHR 0xB8, CHR 0x81, CHR 0xE0, CHR 0xB8, CHR 0xAD, CHR 0xE0, CHR 0xB8, CHR 0x9A]"

definition th_khamathibai :: string where \<comment> \<open>U+0E04 U+0E33 U+0E2D U+0E18 U+0E34 U+0E1A U+0E32 U+0E22\<close>
  "th_khamathibai = [CHR 0xE0, CHR 0xB8, CHR 0x84, CHR 0xE0, CHR 0xB8, CHR 0xB3, CHR 0xE0, CHR 0xB8, CHR 0xAD, CHR 0xE0, CHR 0xB8, CHR 0x98, CHR 0xE0, CHR 0xB8, CHR 0xB4, CHR 0xE0, CHR 0xB8, CHR 0x9A, CHR 0xE0, CHR 0xB8, CHR 0xB2, CHR 0xE0, CHR 0xB8, CHR 0xA2]"

definition th_huakho :: string where \<comment> \<open>U+0E2B U+0E31 U+0E27 U+0E02 U+0E49 U+0E2D\<close>
  "th_huakho = [CHR 0xE0, CHR 0xB8, CHR 0xAB, CHR 0xE0, CHR 0xB8, CHR 0xB1, CHR 0xE0, CHR 0xB8, CHR 0xA7, CHR 0xE0, CHR 0xB8, CHR 0x82, CHR 0xE0, CHR 0xB9, CHR 0x89, CHR 0xE0, CHR 0xB8, CHR 0xAD]"

definition th_klum :: string where \<comment> \<open>U+0E01 U+0E25 U+0E38 U+0E48 U+0E21\<close>
  "th_klum = [CHR 0xE0, CHR 0xB8, CHR 0x81, CHR 0xE0, CHR 0xB8, CHR 0xA5, CHR 0xE0, CHR 0xB8, CHR 0xB8, CHR 0xE0, CHR 0xB9, CHR 0x88, CHR 0xE0, CHR 0xB8, CHR 0xA1]"

definition th_rakhaphoem :: string where \<comment> \<open>U+0E23 U+0E32 U+0E04 U+0E32 U+0E40 U+0E1E U+0E34 U+0E48 U+0E21\<close>
  "th_rakhaphoem = [CHR 0xE0, CHR 0xB8, CHR 0xA3, CHR 0xE0, CHR 0xB8, CHR 0xB2, CHR 0xE0, CHR 0xB8, CHR 0x84, CHR 0xE0, CHR 0xB8, CHR 0xB2, CHR 0xE0, CHR 0xB9, CHR 0x80, CHR 0xE0, CHR 0xB8, CHR 0x9E, CHR 0xE0, CHR 0xB8, CHR 0xB4, CHR 0xE0, CHR 0xB9, CHR 0x88, CHR 0xE0, CHR 0xB8, CHR 0xA1]"

definition th_buak :: string where \<comment> \<open>U+0E1A U+0E27 U+0E01\<close>
  "th_buak = [CHR 0xE0, CHR 0xB8, CHR 0x9A, CHR 0xE0, CHR 0xB8, CHR 0xA7, CHR 0xE0, CHR 0xB8, CHR 0x81]"

definition th_phrik :: string where \<comment> \<open>U+0E1E U+0E23 U+0E34 U+0E01\<close>
  "th_phrik = [CHR 0xE0, CHR 0xB8, CHR 0x9E, CHR 0xE0, CHR 0xB8, CHR 0xA3, CHR 0xE0, CHR 0xB8, CHR 0xB4, CHR 0xE0, CHR 0xB8, CHR 0x81]"

definition th_tomyam :: string where \<comment> \<open>U+0E15 U+0E49 U+0E21 U+0E22 U+0E33\<close>
  "th_tomyam = [CHR 0xE0, CHR 0xB8, CHR 0x95, CHR 0xE0, CHR 0xB9, CHR 0x89, CHR 0xE0, CHR 0xB8, CHR 0xA1, CHR 0xE0, CHR 0xB8, CHR 0xA2, CHR 0xE0, CHR 0xB8, CHR 0xB3]"

definition th_phet :: string where \<comment> \<open>U+0E40 U+0E1C U+0E47 U+0E14\<close>
  "th_phet = [CHR 0xE0, CHR 0xB9, CHR 0x80, CHR 0xE0, CHR 0xB8, CHR 0x9C, CHR 0xE0, CHR 0xB9, CHR 0x87, CHR 0xE0, CHR 0xB8, CHR 0x94]"

section \<open>Column resolution\<close>

text \<open>
  A row object of \<open>sheet_to_json\<close>: its own properties as \<open>Object.keys\<close> enumerates them,
  each header with its cell. \<open>row[k]\<close> reads the property \<open>k\<close>.
\<close>

type_synonym row = "(string \<times> jsval) list"

definition rowGet :: "row \<Rightarrow> string \<Rightarrow> jsval" where
  "rowGet r k = (case map_of r k of Some v \<Rightarrow> v | None \<Rightarrow> Undefined)"

text \<open>
  \<open>getValue(keys, exclude)\<close> of the service. \<open>rowKeys.find\<close> walks the headers in their
  order and yields the first that passes the test; \<open>if (exact)\<close> and \<open>partial ? \<dots>\<close> test the
  header found for truthiness, so an empty header counts as not found.
\<close>

definition isExact :: "string list \<Rightarrow> string \<Rightarrow> bool" where
  "isExact keys k = list_ex (\<lambda>s. toLowerCase k = toLowerCase s) keys"

definition isPartial :: "string list \<Rightarrow> string list \<Rightarrow> string \<Rightarrow> bool" where
  "isPartial keys exclude k =
     (let lowerK = toLowerCase k;
          matchesKey = list_ex (\<lambda>s. js_includes lowerK (toLowerCase s)) keys;
          isExcluded = list_ex (\<lambda>e. js_includes lowerK (toLowerCase e)) exclude
      in matchesKey \<and> \<not> isExcluded)"

definition getValue :: "row \<Rightarrow> string list \<Rightarrow> string list \<Rightarrow> jsval" where
  "getValue r keys exclude =
     (let rowKeys = map fst r;
          exact = find (isExact keys) rowKeys
      in if exact \<noteq> None \<and> the exact \<noteq> [] then rowGet r (the exact)
         else (let partial = find (isPartial keys exclude) rowKeys
               in if partial \<noteq> None \<and> the partial \<noteq> [] then rowGet r (the partial)
                  else Undefined))"

section \<open>Numbers\<close>

text \<open>
  \<open>Number(v) || 0\<close>. A string converts after trimming: the empty string is 0, an optionally
  signed run of decimal digits is its value, and any other text is \<open>NaN\<close>, which \<open>||\<close>
  replaces by 0. The other numeric literal forms of JavaScript (fractions, exponents,
  hexadecimal, \<open>Infinity\<close>) have no value among the integers and are outside the model.
\<close>

definition digitVal :: "char \<Rightarrow> nat option" where
  "digitVal c = map_of (zip ''0123456789'' [0, 1, 2, 3, 4, 5, 6, 7, 8, 9]) c"

fun parseDigitsFrom :: "nat \<Rightarrow> string \<Rightarrow> nat option" where
  "parseDigitsFrom acc [] = Some acc"
| "parseDigitsFrom acc (c # s) =
     (case digitVal c of
        None \<Rightarrow> None
      | Some d \<Rightarrow> parseDigitsFrom (10 * acc + d) s)"

definition parseDigits :: "string \<Rightarrow> nat option" where
  "parseDigits s = (if s = [] then None else parseDigitsFrom 0 s)"

definition stringToNumber :: "string \<Rightarrow> int option" where
  "stringToNumber s =
     (let t = trim s
      in if t = [] then Some 0
         else if hd t = CHR ''-'' then map_option (\<lambda>n. - int n) (parseDigits (tl t))
         else if hd t = CHR ''+'' then map_option int (parseDigits (tl t))
         else map_option int (parseDigits t))"

fun numberOrZero :: "jsval \<Rightarrow> int" where
  "numberOrZero Undefined = 0"
| "numberOrZero Null = 0"
| "numberOrZero (Bool b) = (if b then 1 else 0)"
| "numberOrZero (Num n) = n"
| "numberOrZero (Str s) = (case stringToNumber s of Some n \<Rightarrow> n | None \<Rightarrow> 0)"

section \<open>Image links and LINE identifiers\<close>

text \<open>
  The pattern \<open>/\/d\/(.*?)\/|id=(.*?)(&|$)/\<close> of \<open>processImageUrl\<close>. A lazy group takes
  the shortest text that lets the rest of its branch match, and \<open>.\<close> refuses a line
  terminator (line feed and carriage return here). \<open>match\<close> tries each start position
  from the left, and at each position the first branch before the second.
\<close>

definition isLineTerminator :: "char \<Rightarrow> bool" where
  "isLineTerminator c = (c = CHR 0x0A \<or> c = CHR 0x0D)"

fun lazyUntilSlash :: "string \<Rightarrow> string option" where
  "lazyUntilSlash [] = None"
| "lazyUntilSlash (c # s) =
     (if c = CHR ''/'' then Some []
      else if isLineTerminator c then None
      else map_option ((#) c) (lazyUntilSlash s))"

fun lazyUntilAmpOrEnd :: "string \<Rightarrow> string option" where
  "lazyUntilAmpOrEnd [] = Some []"
| "lazyUntilAmpOrEnd (c # s) =
     (if c = CHR ''&'' then Some []
      else if isLineTerminator c then None
      else map_option ((#) c) (lazyUntilAmpOrEnd s))"

text \<open>
  The match at one start position: \<open>Inl g\<close> when the first branch matched with group 1
  equal to \<open>g\<close>, \<open>Inr g\<close> when the second matched with group 2 equal to \<open>g\<close>.
\<close>

definition matchIdHere :: "string \<Rightarrow> (string + string) option" where
  "matchIdHere s =
     (case (if prefix ''/d/'' s then lazyUntilSlash (drop 3 s) else None) of
        Some g1 \<Rightarrow> Some (Inl g1)
      | None \<Rightarrow>
          (if prefix ''id='' s then map_option Inr (lazyUntilAmpOrEnd (drop 3 s)) else None))"

fun matchId :: "string \<Rightarrow> (string + string) option" where
  "matchId [] = matchIdHere []"
| "matchId (c # s) =
     (case matchIdHere (c # s) of
        Some m \<Rightarrow> Some m
      | None \<Rightarrow> matchId s)"

text \<open>
  \<open>idMatch[1] || idMatch[2]\<close>: an empty group 1 is falsy and group 2 did not take part, so
  the template prints \<open>undefined\<close>; when the second branch matched, group 2 is used as it is.
\<close>

definition processImageUrl :: "string \<Rightarrow> string" where
  "processImageUrl url =
     (if url = [] then []
      else (let cleanUrl = trim url
            in if js_includes cleanUrl ''drive.google.com'' then
                 (case matchId cleanUrl of
                    Some idMatch \<Rightarrow>
                      ''https://drive.google.com/uc?export=view&id='' @
                        (case idMatch of
                           Inl g1 \<Rightarrow> (if g1 \<noteq> [] then g1 else ''undefined'')
                         | Inr g2 \<Rightarrow> g2)
                  | None \<Rightarrow> cleanUrl)
               else cleanUrl))"

definition extractLineId :: "jsval \<Rightarrow> string" where
  "extractLineId val =
     (if \<not> truthy val then []
      else (let str = trim (toStr val)
            in if js_includes str ''line.me'' then
                 (let parts = split CHR ''/'' str
                  in hd (split CHR ''?'' (last parts)))
               else str))"

section \<open>The menu model\<close>

record MenuChoice =
  c_name :: string
  c_priceModifier :: int

record MenuOption =
  o_name :: string
  o_choices :: "MenuChoice list"

record MenuItem =
  i_id :: string
  i_category :: string
  i_name :: string
  i_price :: int
  i_description :: "string option"
  i_image :: string
  i_isSpicy :: bool
  i_options :: "MenuOption list"

record AppConfig =
  logoUrl :: "string option"
  qrCodeUrl :: "string option"
  lineOaId :: "string option"

record MenuData =
  items :: "MenuItem list"
  config :: AppConfig

definition emptyConfig :: AppConfig where
  "emptyConfig = \<lparr>logoUrl = None, qrCodeUrl = None, lineOaId = None\<rparr>"

text \<open>
  The two accumulators of one run: the object \<open>groupedItems\<close>, as its own properties in
  creation order, and the configuration collected so far.
\<close>

record accum =
  groupedItems :: "(string \<times> MenuItem) list"
  appConfig :: AppConfig

definition emptyAccum :: accum where
  "emptyAccum = \<lparr>groupedItems = [], appConfig = emptyConfig\<rparr>"

text \<open>
  \<open>groupedItems\<close> is a plain object, so \<open>groupedItems[name]\<close> also finds what it inherits
  from \<open>Object.prototype\<close>. Each of these is a function or an object, hence truthy.
\<close>

definition objectPrototypeKeys :: "string list" where
  "objectPrototypeKeys =
     [''constructor'', ''__defineGetter__'', ''__defineSetter__'', ''hasOwnProperty'',
      ''__lookupGetter__'', ''__lookupSetter__'', ''isPrototypeOf'', ''propertyIsEnumerable'',
      ''toString'', ''valueOf'', ''__proto__'', ''toLocaleString'']"

section \<open>The fields of a row\<close>

definition categoryKeys :: "string list" where
  "categoryKeys = [''category'', ''type'', th_muat, th_praphet, ''group'']"

definition nameKeys :: "string list" where
  "nameKeys = [''name'', ''menu'', ''item'', ''food'', th_chue, th_raikan, th_menu]"

definition nameExclude :: "string list" where
  "nameExclude = [''option'', ''choice'', th_tualueak, th_rakha, ''price'', ''img'']"

definition imageKeys :: "string list" where
  "imageKeys = [''image'', ''img'', ''url'', ''photo'', th_rup, ''pic'', ''link'']"

definition configKeywords :: "string list" where
  "configKeywords = [''setting'', ''config'', ''system'', th_tangkha]"

definition lineValueKeys :: "string list" where
  "lineValueKeys =
     [''price'', ''cost'', th_rakha, ''value'', th_kha, ''detail'', ''description'', ''option'']"

definition priceKeys :: "string list" where
  "priceKeys = [''price'', ''cost'', th_rakha, th_baht]"

definition descriptionKeys :: "string list" where
  "descriptionKeys = [''description'', ''detail'', th_raila, th_suanprakop, th_khamathibai]"

definition optGroupKeys :: "string list" where
  "optGroupKeys =
     [''option_group_name'', ''group_name'', ''option_group'', th_huakho @ th_tualueak,
      th_klum @ th_tualueak]"

definition optChoiceKeys :: "string list" where
  "optChoiceKeys =
     [''option_name'', ''choice_name'', ''sub_option'', th_tualueak, th_chue @ th_tualueak]"

definition optPriceModKeys :: "string list" where
  "optPriceModKeys =
     [''option_price_modifier'', ''price_modifier'', ''add_price'', th_rakhaphoem, th_buak,
      ''modifier'']"

definition optHeaderKeys :: "string list" where
  "optHeaderKeys = [''option_header'', th_huakho]"

definition optChoicesKeys :: "string list" where
  "optChoicesKeys = [''option_choices'', ''choices'', ''selections'']"

text \<open>\<open>String(getValue(...) || 'General')\<close>.\<close>

definition rowCategory :: "row \<Rightarrow> string" where
  "rowCategory r =
     (let v = getValue r categoryKeys []
      in if truthy v then toStr v else ''General'')"

definition rowRawName :: "row \<Rightarrow> jsval" where
  "rowRawName r = getValue r nameKeys nameExclude"

text \<open>\<open>String(rawName || '').trim()\<close>.\<close>

definition rowName :: "row \<Rightarrow> string" where
  "rowName r =
     (let rawName = rowRawName r
      in trim (if truthy rawName then toStr rawName else []))"

definition rowProcessedImg :: "row \<Rightarrow> string" where
  "rowProcessedImg r =
     (let rawImg = getValue r imageKeys []
      in if truthy rawImg then processImageUrl (toStr rawImg) else [])"

definition isConfigRow :: "row \<Rightarrow> bool" where
  "isConfigRow r =
     list_ex (\<lambda>k. js_includes (toLowerCase (rowCategory r)) k) configKeywords"

section \<open>Configuration rows\<close>

text \<open>
  The block under \<open>CONFIGURATION EXTRACTION\<close>. \<open>possibleId\<close> is
  \<open>processedImg || getValue([...]) || ''\<close>, the first truthy operand or the final
  empty string.
\<close>

definition linePossibleId :: "row \<Rightarrow> jsval" where
  "linePossibleId r =
     (let processedImg = rowProcessedImg r
      in if processedImg \<noteq> [] then Str processedImg
         else (let v = getValue r lineValueKeys []
               in if truthy v then v else Str []))"

definition configStep :: "row \<Rightarrow> AppConfig \<Rightarrow> AppConfig" where
  "configStep r cfg =
     (let lname = toLowerCase (rowName r);
          processedImg = rowProcessedImg r
      in if js_includes lname ''logo'' then cfg\<lparr>logoUrl := Some processedImg\<rparr>
         else if js_includes lname ''qr'' \<or> js_includes lname ''payment'' then
           cfg\<lparr>qrCodeUrl := Some processedImg\<rparr>
         else if js_includes lname ''line'' then
           (let possibleId = linePossibleId r
            in if truthy possibleId then cfg\<lparr>lineOaId := Some (extractLineId possibleId)\<rparr>
               else cfg)
         else cfg)"

section \<open>Item rows\<close>

text \<open>
  The object literal stored under \<open>groupedItems[name]\<close>; \<open>n\<close> is
  \<open>Object.keys(groupedItems).length\<close> at that moment.
\<close>

definition rowIsSpicy :: "string \<Rightarrow> jsval \<Rightarrow> bool" where
  "rowIsSpicy name desc =
     (js_includes name ''Spicy'' \<or> (truthy desc \<and> js_includes (toStr desc) th_phrik)
      \<or> js_includes name th_tomyam \<or> js_includes name th_phet)"

definition newItem :: "row \<Rightarrow> nat \<Rightarrow> MenuItem" where
  "newItem r n =
     (let name = rowName r;
          processedImg = rowProcessedImg r;
          price = getValue r priceKeys [''option''];
          desc = getValue r descriptionKeys [];
          finalImg = (if processedImg \<noteq> [] then processedImg
                      else ''https://picsum.photos/seed/'' @ filter (\<lambda>c. \<not> isSpace c) name
                           @ ''/300/200'')
      in \<lparr>i_id = ''item-'' @ natToString n,
          i_category = rowCategory r,
          i_name = name,
          i_price = numberOrZero price,
          i_description = (if truthy desc then Some (toStr desc) else None),
          i_image = finalImg,
          i_isSpicy = rowIsSpicy name desc,
          i_options = []\<rparr>)"

section \<open>Option parsing\<close>

text \<open>
  \<open>find\<close> returns a reference to the first element that passes, and the pushes that follow
  change that element where it sits in the array.
\<close>

fun updateFirst :: "('a \<Rightarrow> bool) \<Rightarrow> ('a \<Rightarrow> 'a) \<Rightarrow> 'a list \<Rightarrow> 'a list" where
  "updateFirst P f [] = []"
| "updateFirst P f (x # xs) = (if P x then f x # xs else x # updateFirst P f xs)"

text \<open>\<open>if (!g.choices.some(c => c.name === ch.name)) g.choices.push(ch)\<close>.\<close>

definition pushChoice :: "MenuChoice \<Rightarrow> MenuOption \<Rightarrow> MenuOption" where
  "pushChoice ch g =
     (if list_ex (\<lambda>c. c_name c = c_name ch) (o_choices g) then g
      else g\<lparr>o_choices := o_choices g @ [ch]\<rparr>)"

text \<open>
  Case 1, one choice per row. The result is \<open>None\<close> when \<open>optionAdded\<close> stays false.
\<close>

definition rowBasedOption :: "row \<Rightarrow> MenuOption list \<Rightarrow> MenuOption list option" where
  "rowBasedOption r opts =
     (let optGroupKey = getValue r optGroupKeys [];
          optChoiceKey = getValue r optChoiceKeys [];
          optPriceModKey = getValue r optPriceModKeys [];
          priceMod = numberOrZero optPriceModKey
      in if truthy optGroupKey \<and> truthy optChoiceKey then
           (let groupName = trim (toStr optGroupKey);
                choiceName = trim (toStr optChoiceKey)
            in if groupName \<noteq> [] \<and> choiceName \<noteq> [] then
                 (let opts1 = (if find (\<lambda>opt. o_name opt = groupName) opts = None
                               then opts @ [\<lparr>o_name = groupName, o_choices = []\<rparr>]
                               else opts)
                  in Some (updateFirst (\<lambda>opt. o_name opt = groupName)
                             (pushChoice \<lparr>c_name = choiceName, c_priceModifier = priceMod\<rparr>)
                             opts1))
               else None)
         else None)"

text \<open>
  Case 2, a comma separated list. \<open>o.name === optName\<close> compares a string with the raw
  cell, so only a string cell can find an existing group; a new group is pushed with the
  choices as they were split, repetitions included.
\<close>

definition commaOption :: "row \<Rightarrow> MenuOption list \<Rightarrow> MenuOption list" where
  "commaOption r opts =
     (let optName = getValue r optHeaderKeys [''group''];
          optChoices = getValue r optChoicesKeys [''group'', ''name'']
      in if truthy optName \<and> truthy optChoices then
           (let newChoicesStr = filter (\<lambda>s. s \<noteq> []) (map trim (split CHR '','' (toStr optChoices)))
            in if newChoicesStr \<noteq> [] then
                 (let isExisting = (\<lambda>opt. Str (o_name opt) = optName);
                      newChoiceObjs = map (\<lambda>c. \<lparr>c_name = c, c_priceModifier = 0\<rparr>) newChoicesStr
                  in if find isExisting opts \<noteq> None then
                       updateFirst isExisting (\<lambda>g. foldl (\<lambda>g nc. pushChoice nc g) g newChoiceObjs) opts
                     else opts @ [\<lparr>o_name = toStr optName, o_choices = newChoiceObjs\<rparr>])
               else opts)
         else opts)"

definition parseOptions :: "row \<Rightarrow> MenuOption list \<Rightarrow> MenuOption list" where
  "parseOptions r opts =
     (case rowBasedOption r opts of
        Some opts' \<Rightarrow> opts'
      | None \<Rightarrow> commaOption r opts)"

section \<open>Folding one row\<close>

text \<open>
  The body of \<open>rawData.forEach\<close>. When \<open>groupedItems[name]\<close> is an inherited property the
  creation is skipped, \<open>item.options\<close> is \<open>undefined\<close>, and every \<open>item.options?.\<close> call
  does nothing: the accumulators stay as they are.
\<close>

definition processRow :: "row \<Rightarrow> accum \<Rightarrow> accum" where
  "processRow r st =
     (if isConfigRow r then st\<lparr>appConfig := configStep r (appConfig st)\<rparr>
      else if \<not> truthy (rowRawName r) then st
      else (let name = rowName r
            in case map_of (groupedItems st) name of
                 Some item \<Rightarrow>
                   st\<lparr>groupedItems :=
                        AList.update name (item\<lparr>i_options := parseOptions r (i_options item)\<rparr>)
                          (groupedItems st)\<rparr>
               | None \<Rightarrow>
                   (if name \<in> set objectPrototypeKeys then st
                    else (let item = newItem r (length (groupedItems st))
                          in st\<lparr>groupedItems :=
                                 groupedItems st
                                 @ [(name, item\<lparr>i_options := parseOptions r (i_options item)\<rparr>)]\<rparr>))))"

definition processRows :: "row list \<Rightarrow> accum \<Rightarrow> accum" where
  "processRows rs st = foldl (\<lambda>s r. processRow r s) st rs"

section \<open>Header row detection\<close>

text \<open>
  \<open>JSON.stringify\<close> of one row of cells. A hole, \<open>undefined\<close> and \<open>null\<close> print as
  \<open>null\<close>; a string is quoted, with the escapes of the JSON grammar.
\<close>

definition hexDigit :: "nat \<Rightarrow> char" where
  "hexDigit n = ''0123456789abcdef'' ! n"

definition jsonEscape :: "char \<Rightarrow> string" where
  "jsonEscape c =
     (if c = CHR 0x08 then CHR 0x5C # ''b''
      else if c = CHR 0x09 then CHR 0x5C # ''t''
      else if c = CHR 0x0A then CHR 0x5C # ''n''
      else if c = CHR 0x0C then CHR 0x5C # ''f''
      else if c = CHR 0x0D then CHR 0x5C # ''r''
      else if c = CHR 0x22 then [CHR 0x5C, CHR 0x22]
      else if c = CHR 0x5C then [CHR 0x5C, CHR 0x5C]
      else if (of_char c :: nat) < 32 then
        CHR 0x5C # ''u00'' @ [hexDigit ((of_char c :: nat) div 16), hexDigit ((of_char c :: nat) mod 16)]
      else [c])"

fun jsonCell :: "jsval \<Rightarrow> string" where
  "jsonCell Undefined = ''null''"
| "jsonCell Null = ''null''"
| "jsonCell (Bool b) = (if b then ''true'' else ''false'')"
| "jsonCell (Num n) = intToString n"
| "jsonCell (Str s) = [CHR 0x22] @ concat (map jsonEscape s) @ [CHR 0x22]"

fun joinWith :: "string \<Rightarrow> string list \<Rightarrow> string" where
  "joinWith sep [] = []"
| "joinWith sep [x] = x"
| "joinWith sep (x # y # ys) = x @ sep @ joinWith sep (y # ys)"

definition jsonStringify :: "jsval list \<Rightarrow> string" where
  "jsonStringify cells = ''['' @ joinWith '','' (map jsonCell cells) @ '']''"

definition searchKeywords :: "string list" where
  "searchKeywords =
     [''name'', ''menu'', ''item'', th_chue, th_raikan, ''category'', th_muat, ''price'', th_rakha]"

definition matchCount :: "jsval list \<Rightarrow> nat" where
  "matchCount cells =
     (let rowStr = toLowerCase (jsonStringify cells)
      in length (filter (\<lambda>k. js_includes rowStr k) searchKeywords))"

text \<open>
  The scanning loop, from index \<open>i\<close>: the result is \<open>headerRowIndex\<close> when the loop ends,
  the index at the \<open>break\<close> or the initial 0.
\<close>

function scanHeader :: "jsval list list \<Rightarrow> nat \<Rightarrow> nat" where
  "scanHeader rows i =
     (if i < min (length rows) 10 then
        (if matchCount (rows ! i) \<ge> 2 then i else scanHeader rows (i + 1))
      else 0)"
  by pat_completeness auto
termination
  by (relation "measure (\<lambda>(rows, i). min (length rows) 10 - i)") auto

declare scanHeader.simps [simp del]

definition headerRowIndex :: "jsval list list \<Rightarrow> nat" where
  "headerRowIndex rows = scanHeader rows 0"

section \<open>Sheets, the workbook and the fetch\<close>

text \<open>
  The spreadsheet reader is a library outside the repository. A sheet is what its two
  calls return: \<open>sheetRows\<close> is \<open>sheet_to_json(sheet, {header: 1})\<close>, the rows as arrays
  of cells, and \<open>sheetRecords h\<close> is \<open>sheet_to_json(sheet, {range: h})\<close>, the row objects
  read with row \<open>h\<close> as the header.
\<close>

record sheet =
  sheetRows :: "jsval list list"
  sheetRecords :: "nat \<Rightarrow> row list"

definition processSheet :: "sheet \<Rightarrow> accum \<Rightarrow> accum" where
  "processSheet sh st =
     (let rows = sheetRows sh
      in if rows = [] then st
         else (let rawData = sheetRecords sh (headerRowIndex rows)
               in processRows rawData st))"

type_synonym workbook = "sheet list"

definition processWorkbook :: "workbook \<Rightarrow> accum" where
  "processWorkbook wb = foldl (\<lambda>s sh. processSheet sh s) emptyAccum wb"

text \<open>
  \<open>Object.values(groupedItems)\<close>: the properties whose key is an array index (a canonical
  decimal numeral below \<open>2^32 - 1\<close>) come first, in ascending order, then the others in
  creation order.
\<close>

definition arrayIndex :: "string \<Rightarrow> nat option" where
  "arrayIndex k =
     (case parseDigits k of
        Some n \<Rightarrow> (if natToString n = k \<and> n < 4294967295 then Some n else None)
      | None \<Rightarrow> None)"

definition objectValues :: "(string \<times> 'a) list \<Rightarrow> 'a list" where
  "objectValues kvs =
     map snd (sort_key (\<lambda>kv. the (arrayIndex (fst kv))) (filter (\<lambda>kv. arrayIndex (fst kv) \<noteq> None) kvs)
              @ filter (\<lambda>kv. arrayIndex (fst kv) = None) kvs)"

definition menuData :: "accum \<Rightarrow> MenuData" where
  "menuData st = \<lparr>items = objectValues (groupedItems st), config = appConfig st\<rparr>"

text \<open>
  The outcome of \<open>fetch\<close> and of decoding the body. \<open>fetch\<close> rejects or resolves with a
  response; \<open>contentType\<close> is \<open>headers.get('content-type')\<close>, \<open>None\<close> for \<open>null\<close>; \<open>body\<close> is
  the workbook that \<open>arrayBuffer\<close> and \<open>XLSX.read\<close> produce, \<open>None\<close> when either throws.
\<close>

record response =
  contentType :: "string option"
  ok :: bool
  body :: "workbook option"

datatype fetched = Rejected | Resolved response

datatype error = NetworkError | PERMISSION_DENIED | FetchFailed | DecodeError

text \<open>The \<open>try\<close> block: \<open>Inl\<close> is a throw, \<open>Inr\<close> the value returned.\<close>

definition tryLoad :: "fetched \<Rightarrow> error + MenuData" where
  "tryLoad f =
     (case f of
        Rejected \<Rightarrow> Inl NetworkError
      | Resolved resp \<Rightarrow>
          (if contentType resp \<noteq> None \<and> the (contentType resp) \<noteq> []
              \<and> js_includes (the (contentType resp)) ''text/html''
           then Inl PERMISSION_DENIED
           else if \<not> ok resp then Inl FetchFailed
           else (case body resp of
                   None \<Rightarrow> Inl DecodeError
                 | Some wb \<Rightarrow> Inr (menuData (processWorkbook wb)))))"

text \<open>The whole function: the \<open>catch\<close> turns every throw into the empty result.\<close>

definition fetchMenuFromSheet :: "fetched \<Rightarrow> MenuData" where
  "fetchMenuFromSheet f =
     (case tryLoad f of
        Inl e \<Rightarrow> \<lparr>items = [], config = emptyConfig\<rparr>
      | Inr d \<Rightarrow> d)"

section \<open>The resolution rule as the specification words it\<close>

text \<open>
  The specification describes the exact tier of column resolution as a walk over the
  synonyms: the first synonym that equals some header, case-insensitively, decides, and
  the value of the column it matched is returned. The partial tier and the result when
  nothing qualifies are as in \<open>getValue\<close>.
\<close>

definition getValue_spec :: "row \<Rightarrow> string list \<Rightarrow> string list \<Rightarrow> jsval" where
  "getValue_spec r keys exclude =
     (case find (\<lambda>s. list_ex (\<lambda>k. toLowerCase k = toLowerCase s) (map fst r)) keys of
        Some s \<Rightarrow>
          (case find (\<lambda>k. toLowerCase k = toLowerCase s) (map fst r) of
             Some k \<Rightarrow> rowGet r k
           | None \<Rightarrow> Undefined)
      | None \<Rightarrow>
          (case find (isPartial keys exclude) (map fst r) of
             Some k \<Rightarrow> rowGet r k
           | None \<Rightarrow> Undefined))"

section \<open>Processing order and configuration writes\<close>

text \<open>
  The row objects one sheet contributes to the fold, and those of the whole workbook in
  processing order: sheet after sheet, and row after row within a sheet.
\<close>

definition sheetData :: "sheet \<Rightarrow> row list" where
  "sheetData sh =
     (if sheetRows sh = [] then [] else sheetRecords sh (headerRowIndex (sheetRows sh)))"

definition workbookRows :: "workbook \<Rightarrow> row list" where
  "workbookRows wb = concat (map sheetData wb)"

text \<open>
  The rows that assign a configuration key: a configuration row writes \<open>logoUrl\<close> when
  it takes the first branch of the chain of name tests, \<open>qrCodeUrl\<close> when it takes the
  second, and \<open>lineOaId\<close> when it takes the third with a truthy \<open>possibleId\<close>.
\<close>

definition writesLogo :: "row \<Rightarrow> bool" where
  "writesLogo r \<longleftrightarrow> isConfigRow r \<and> js_includes (toLowerCase (rowName r)) ''logo''"

definition writesQr :: "row \<Rightarrow> bool" where
  "writesQr r \<longleftrightarrow>
     isConfigRow r \<and> \<not> js_includes (toLowerCase (rowName r)) ''logo''
     \<and> (js_includes (toLowerCase (rowName r)) ''qr''
         \<or> js_includes (toLowerCase (rowName r)) ''payment'')"

definition writesLine :: "row \<Rightarrow> bool" where
  "writesLine r \<longleftrightarrow>
     isConfigRow r \<and> \<not> js_includes (toLowerCase (rowName r)) ''logo''
     \<and> \<not> js_includes (toLowerCase (rowName r)) ''qr''
     \<and> \<not> js_includes (toLowerCase (rowName r)) ''payment''
     \<and> js_includes (toLowerCase (rowName r)) ''line''
     \<and> truthy (linePossibleId r)"

section \<open>Notions used to state the option properties\<close>

text \<open>
  The number of choices named \<open>c\<close> in the group named \<open>g\<close> that \<open>find\<close> returns, in a list
  of option groups and for the item named \<open>n\<close> of an accumulator; 0 when there is no such
  group or item.
\<close>

definition optCount :: "MenuOption list \<Rightarrow> string \<Rightarrow> string \<Rightarrow> nat" where
  "optCount opts g c =
     (case find (\<lambda>opt. o_name opt = g) opts of
        None \<Rightarrow> 0
      | Some grp \<Rightarrow> length (filter (\<lambda>ch. c_name ch = c) (o_choices grp)))"

definition choiceCount :: "accum \<Rightarrow> string \<Rightarrow> string \<Rightarrow> string \<Rightarrow> nat" where
  "choiceCount st n g c =
     (case map_of (groupedItems st) n of
        None \<Rightarrow> 0
      | Some it \<Rightarrow> optCount (i_options it) g c)"

text \<open>
  What case 1 does to the option groups of an item once the group and choice names are
  known: the group is found or created, and the choice pushed unless present.
\<close>

definition addRowChoice :: "string \<Rightarrow> string \<Rightarrow> int \<Rightarrow> MenuOption list \<Rightarrow> MenuOption list" where
  "addRowChoice g c pm opts =
     updateFirst (\<lambda>opt. o_name opt = g) (pushChoice \<lparr>c_name = c, c_priceModifier = pm\<rparr>)
       (if find (\<lambda>opt. o_name opt = g) opts = None
        then opts @ [\<lparr>o_name = g, o_choices = []\<rparr>] else opts)"

text \<open>
  A list of option groups extends another when it keeps every group at its place with its
  name, and each group's choices continue the old ones.
\<close>

definition optionsExtend :: "MenuOption list \<Rightarrow> MenuOption list \<Rightarrow> bool" where
  "optionsExtend old new \<longleftrightarrow>
     length old \<le> length new
     \<and> (\<forall>j. j < length old \<longrightarrow>
           o_name (new ! j) = o_name (old ! j)
           \<and> prefix (o_choices (old ! j)) (o_choices (new ! j)))"

section \<open>The invariant of the item accumulator\<close>

text \<open>
  Every property of \<open>groupedItems\<close> is stored under the name of its item, and no key
  occurs twice.
\<close>

definition keyedByName :: "accum \<Rightarrow> bool" where
  "keyedByName st \<longleftrightarrow>
     distinct (map fst (groupedItems st))
     \<and> list_all (\<lambda>kv. i_name (snd kv) = fst kv) (groupedItems st)"

section \<open>Example inputs\<close>

text \<open>A sheet with a title line and a blank line above its header row.\<close>

definition titledSheet :: "jsval list list" where
  "titledSheet = [[Str ''SeoulGood menu''], [], [Str ''Name'', Str ''Price'']]"

text \<open>
  A one-item workbook sheet, and a response that carries it under an HTML content type.
\<close>

definition kimchiSheet :: sheet where
  "kimchiSheet =
     \<lparr>sheetRows = [[Str ''Name'', Str ''Price''], [Str ''Kimchi'', Num 120]],
      sheetRecords = (\<lambda>h. [[(''Name'', Str ''Kimchi''), (''Price'', Num 120)]])\<rparr>"

definition htmlResponse :: response where
  "htmlResponse =
     \<lparr>contentType = Some ''text/html; charset=utf-8'', ok = True, body = Some [kimchiSheet]\<rparr>"

text \<open>
  The row \<open>{Category: "Main", Name: "Kimchi Fried Rice", Price: 120, Description: ...}\<close>
  whose description is the Thai for "a little hot" (the word \<open>th_phet\<close> followed by
  \<open>th_nit\<close>), and a row whose description is the Thai word for chili.
\<close>

definition th_nit :: string where \<comment> \<open>U+0E19 U+0E34 U+0E14 U+0E46\<close>
  "th_nit = [CHR 0xE0, CHR 0xB8, CHR 0x99, CHR 0xE0, CHR 0xB8, CHR 0xB4, CHR 0xE0, CHR 0xB8, CHR 0x94, CHR 0xE0, CHR 0xB9, CHR 0x86]"

definition kimchiRow :: row where
  "kimchiRow =
     [(''Category'', Str ''Main''), (''Name'', Str ''Kimchi Fried Rice''), (''Price'', Num 120),
      (''Description'', Str (th_phet @ th_nit))]"

definition phrikRow :: row where
  "phrikRow =
     [(''Category'', Str ''Main''), (''Name'', Str ''Pad Krapao''), (''Price'', Num 90),
      (''Description'', Str th_phrik)]"

text \<open>
  Configuration rows: the LINE row of the specification's scenario, a LINE row whose name
  also mentions a QR code, rows for the logo and the payment QR code with and without an
  image, and LINE rows with and without a value.
\<close>

definition lineRow :: row where
  "lineRow =
     [(''Category'', Str ''Setting''), (''Name'', Str ''Line''),
      (''Price'', Str ''https://line.me/R/ti/p/@seoulgood'')]"

definition lineQrRow :: row where
  "lineQrRow =
     [(''Category'', Str ''Setting''), (''Name'', Str ''Line QR''),
      (''Image'', Str ''https://line.me/R/ti/p/@seoulgood'')]"

definition logoRow :: row where
  "logoRow =
     [(''Category'', Str ''Setting''), (''Name'', Str ''Logo''),
      (''Image'', Str ''https://example.com/logo.png'')]"

definition bareLogoRow :: row where
  "bareLogoRow = [(''Category'', Str ''Setting''), (''Name'', Str ''Logo'')]"

definition qrRow :: row where
  "qrRow =
     [(''Category'', Str ''Setting''), (''Name'', Str ''QR''),
      (''Image'', Str ''https://example.com/qr.png'')]"

definition bareQrRow :: row where
  "bareQrRow = [(''Category'', Str ''Setting''), (''Name'', Str ''Payment'')]"

definition qrLogoRow :: row where
  "qrLogoRow = [(''Category'', Str ''Setting''), (''Name'', Str ''QR logo'')]"

definition lineIdRow :: row where
  "lineIdRow =
     [(''Category'', Str ''Setting''), (''Name'', Str ''Line''), (''Value'', Str ''@seoulgood'')]"

definition bareLineRow :: row where
  "bareLineRow = [(''Category'', Str ''Setting''), (''Name'', Str ''Line'')]"

text \<open>
  Two sheets of configuration rows: the second holds a newer logo, a payment row without
  image and a LINE row without value.
\<close>

definition logoSheet :: sheet where
  "logoSheet =
     \<lparr>sheetRows = [[Str ''Category'', Str ''Name'', Str ''Image'']],
      sheetRecords = (\<lambda>h. [logoRow, qrRow, lineIdRow])\<rparr>"

definition secondSheet :: sheet where
  "secondSheet =
     \<lparr>sheetRows = [[Str ''Category'', Str ''Name'', Str ''Image'']],
      sheetRecords = (\<lambda>h.
        [[(''Category'', Str ''Config''), (''Name'', Str ''Shop logo''),
          (''Image'', Str ''https://example.com/new.png'')],
         bareQrRow, bareLineRow])\<rparr>"

text \<open>
  Item rows for one dish: a row with a row-based option, the same option again with
  another price modifier, and a row that names the dish with other cell values and a comma
  separated option list; and the item the first row creates.
\<close>

definition porkRow :: row where
  "porkRow =
     [(''Category'', Str ''Main''), (''Name'', Str ''Bibimbap''), (''Price'', Num 150),
      (''Description'', Str ''Mixed rice''), (''Image'', Str ''https://example.com/b.png''),
      (''option_group_name'', Str ''Protein''), (''option_name'', Str ''Pork''),
      (''price_modifier'', Num 0)]"

definition porkAgainRow :: row where
  "porkAgainRow =
     [(''Category'', Str ''Main''), (''Name'', Str ''Bibimbap''),
      (''option_group_name'', Str ''Protein''), (''option_name'', Str ''Pork''),
      (''price_modifier'', Num 10)]"

definition sizeRow :: row where
  "sizeRow =
     [(''Name'', Str ''Bibimbap''), (''Price'', Num 999), (''Description'', Str ''changed''),
      (''Image'', Str ''https://example.com/other.png''),
      (''option_header'', Str ''Size''), (''option_choices'', Str ''S, M'')]"

definition bibimbapItem :: MenuItem where
  "bibimbapItem =
     \<lparr>i_id = ''item-0'', i_category = ''Main'', i_name = ''Bibimbap'', i_price = 150,
      i_description = Some ''Mixed rice'', i_image = ''https://example.com/b.png'',
      i_isSpicy = False,
      i_options = [\<lparr>o_name = ''Protein'',
                     o_choices = [\<lparr>c_name = ''Pork'', c_priceModifier = 0\<rparr>]\<rparr>]\<rparr>"

text \<open>
  A sheet whose only data row has a name cell holding a single space.
\<close>

definition blankNameSheet :: sheet where
  "blankNameSheet =
     \<lparr>sheetRows = [[Str ''Name'', Str ''Price''], [Str '' '', Num 50]],
      sheetRecords = (\<lambda>h. [[(''Name'', Str '' ''), (''Price'', Num 50)]])\<rparr>"

section \<open>Properties: strings\<close>

text \<open>The same function read off the bits of the byte, for evaluation.\<close>

lemma lowerChar_bits [code, simp]:
  "lowerChar (Char b0 b1 b2 b3 b4 b5 b6 b7) =
     (if \<not> b7 \<and> b6 \<and> \<not> b5 \<and> (b0 \<or> b1 \<or> b2 \<or> b3 \<or> b4)
         \<and> \<not> (b4 \<and> b3 \<and> (b2 \<or> (b1 \<and> b0)))
      then Char b0 b1 b2 b3 b4 True b6 b7
      else Char b0 b1 b2 b3 b4 b5 b6 b7)"
proof (cases "\<not> b7 \<and> b6 \<and> \<not> b5")
  case True
  then show ?thesis
    unfolding lowerChar_def
    by (cases b0; cases b1; cases b2; cases b3; cases b4; simp)
next
  case False
  then show ?thesis
    unfolding lowerChar_def
    by (cases b5; cases b6; cases b7; simp)
qed


lemma js_includes_iff: "js_includes s t \<longleftrightarrow> (\<exists>pre post. s = pre @ t @ post)"
proof (induction s)
  case Nil
  then show ?case by simp
next
  case (Cons c s)
  show ?case
  proof
    assume "js_includes (c # s) t"
    then consider "prefix t (c # s)" | "js_includes s t" by auto
    then show "\<exists>pre post. c # s = pre @ t @ post"
    proof cases
      case 1
      then obtain post where "c # s = t @ post" by (auto simp: prefix_def)
      then have "c # s = [] @ t @ post" by simp
      then show ?thesis by blast
    next
      case 2
      with Cons.IH obtain pre post where "s = pre @ t @ post" by blast
      then have "c # s = (c # pre) @ t @ post" by simp
      then show ?thesis by blast
    qed
  next
    assume "\<exists>pre post. c # s = pre @ t @ post"
    then obtain pre post where eq: "c # s = pre @ t @ post" by blast
    show "js_includes (c # s) t"
    proof (cases pre)
      case Nil
      with eq have "prefix t (c # s)" by (simp add: prefix_def)
      then show ?thesis by simp
    next
      case (Cons d pre')
      with eq have "s = pre' @ t @ post" by simp
      with Cons.IH have "js_includes s t" by blast
      then show ?thesis by simp
    qed
  qed
qed

lemma split_not_Nil: "split c s \<noteq> []"
  by (induction s) (auto split: list.splits)

section \<open>Properties: column resolution\<close>

lemma find_first_match:
  "\<forall>x \<in> set pre. \<not> P x \<Longrightarrow> P x \<Longrightarrow> find P (pre @ x # post) = Some x"
  by (induction pre) auto

lemma find_no_match: "\<forall>x \<in> set xs. \<not> P x \<Longrightarrow> find P xs = None"
  by (induction xs) auto

lemma rowGet_first:
  "k \<notin> fst ` set pre \<Longrightarrow> rowGet (pre @ (k, v) # post) k = v"
  by (simp add: rowGet_def map_add_def map_of_eq_None_iff [THEN iffD2])

lemma isExact_iff: "isExact keys k \<longleftrightarrow> (\<exists>s \<in> set keys. toLowerCase k = toLowerCase s)"
  by (simp add: isExact_def list_ex_iff)

lemma isPartial_iff:
  "isPartial keys exclude k \<longleftrightarrow>
     (\<exists>s \<in> set keys. js_includes (toLowerCase k) (toLowerCase s))
     \<and> \<not> (\<exists>e \<in> set exclude. js_includes (toLowerCase k) (toLowerCase e))"
  by (simp add: isPartial_def Let_def list_ex_iff)

lemma getValue_exact:
  assumes "r = pre @ (k, v) # post" and "k \<noteq> []" and "isExact keys k"
    and "\<forall>k' \<in> fst ` set pre. \<not> isExact keys k'"
  shows "getValue r keys exclude = v"
proof -
  have "find (isExact keys) (map fst r) = Some k"
    using assms find_first_match [of "map fst pre" "isExact keys" k "map fst post"] by simp
  moreover have "k \<notin> fst ` set pre" using assms by blast
  ultimately show ?thesis
    using assms by (simp add: getValue_def rowGet_first)
qed

lemma getValue_partial:
  assumes "r = pre @ (k, v) # post" and "k \<noteq> []" and "isPartial keys exclude k"
    and "\<forall>k' \<in> fst ` set r. \<not> isExact keys k'"
    and "\<forall>k' \<in> fst ` set pre. \<not> isPartial keys exclude k'"
  shows "getValue r keys exclude = v"
proof -
  have "find (isExact keys) (map fst r) = None"
    using assms(4) by (intro find_no_match) simp
  moreover have "find (isPartial keys exclude) (map fst r) = Some k"
    using assms find_first_match [of "map fst pre" "isPartial keys exclude" k "map fst post"]
    by simp
  moreover have "k \<notin> fst ` set pre" using assms by blast
  ultimately show ?thesis
    using assms by (simp add: getValue_def rowGet_first)
qed

lemma getValue_none:
  assumes "\<forall>k \<in> fst ` set r. \<not> isExact keys k \<and> \<not> isPartial keys exclude k"
  shows "getValue r keys exclude = Undefined"
proof -
  have "find (isExact keys) (map fst r) = None"
    using assms by (intro find_no_match) simp
  moreover have "find (isPartial keys exclude) (map fst r) = None"
    using assms by (intro find_no_match) simp
  ultimately show ?thesis by (simp add: getValue_def)
qed

text \<open>
  Claim C1, as the code has it. In a row whose headers are all non-empty, \<open>getValue\<close>
  returns the value of the first column, in column order, whose header equals one of the
  synonyms case-insensitively, whatever partial matches stand before it; when no header
  equals a synonym, it returns the value of the first column whose lowered header contains
  a lowered synonym and no lowered exclusion string; and when no column qualifies under
  either rule it returns \<open>undefined\<close>. The column order decides among several exact
  matches, not the order of the synonyms.
\<close>

theorem getValue_two_tier:
  assumes "\<forall>k \<in> fst ` set r. k \<noteq> []"
  shows
    "(\<forall>pre k v post.
        r = pre @ (k, v) # post
        \<and> (\<exists>s \<in> set keys. toLowerCase k = toLowerCase s)
        \<and> (\<forall>k' \<in> fst ` set pre. \<not> (\<exists>s \<in> set keys. toLowerCase k' = toLowerCase s))
        \<longrightarrow> getValue r keys exclude = v)
     \<and> (\<forall>pre k v post.
        r = pre @ (k, v) # post
        \<and> (\<forall>k' \<in> fst ` set r. \<not> (\<exists>s \<in> set keys. toLowerCase k' = toLowerCase s))
        \<and> (\<exists>s \<in> set keys. js_includes (toLowerCase k) (toLowerCase s))
        \<and> \<not> (\<exists>e \<in> set exclude. js_includes (toLowerCase k) (toLowerCase e))
        \<and> (\<forall>k' \<in> fst ` set pre.
              \<not> ((\<exists>s \<in> set keys. js_includes (toLowerCase k') (toLowerCase s))
                 \<and> \<not> (\<exists>e \<in> set exclude. js_includes (toLowerCase k') (toLowerCase e))))
        \<longrightarrow> getValue r keys exclude = v)
     \<and> ((\<forall>k \<in> fst ` set r.
            \<not> (\<exists>s \<in> set keys. toLowerCase k = toLowerCase s)
            \<and> \<not> ((\<exists>s \<in> set keys. js_includes (toLowerCase k) (toLowerCase s))
                 \<and> \<not> (\<exists>e \<in> set exclude. js_includes (toLowerCase k) (toLowerCase e))))
        \<longrightarrow> getValue r keys exclude = Undefined)"
proof (intro conjI allI impI)
  fix pre k v post
  assume a: "r = pre @ (k, v) # post
        \<and> (\<exists>s \<in> set keys. toLowerCase k = toLowerCase s)
        \<and> (\<forall>k' \<in> fst ` set pre. \<not> (\<exists>s \<in> set keys. toLowerCase k' = toLowerCase s))"
  then have "k \<noteq> []" using assms by force
  moreover from a have "r = pre @ (k, v) # post" by blast
  moreover from a have "isExact keys k" by (simp add: isExact_iff)
  moreover from a have "\<forall>k' \<in> fst ` set pre. \<not> isExact keys k'"
    unfolding isExact_iff by blast
  ultimately show "getValue r keys exclude = v"
    by (intro getValue_exact [of r pre k v post])
next
  fix pre k v post
  assume a: "r = pre @ (k, v) # post
        \<and> (\<forall>k' \<in> fst ` set r. \<not> (\<exists>s \<in> set keys. toLowerCase k' = toLowerCase s))
        \<and> (\<exists>s \<in> set keys. js_includes (toLowerCase k) (toLowerCase s))
        \<and> \<not> (\<exists>e \<in> set exclude. js_includes (toLowerCase k) (toLowerCase e))
        \<and> (\<forall>k' \<in> fst ` set pre.
              \<not> ((\<exists>s \<in> set keys. js_includes (toLowerCase k') (toLowerCase s))
                 \<and> \<not> (\<exists>e \<in> set exclude. js_includes (toLowerCase k') (toLowerCase e))))"
  then have "k \<noteq> []" using assms by force
  moreover from a have "r = pre @ (k, v) # post" by blast
  moreover from a have "isPartial keys exclude k" by (simp add: isPartial_iff)
  moreover from a have "\<forall>k' \<in> fst ` set r. \<not> isExact keys k'"
    unfolding isExact_iff by blast
  moreover from a have "\<forall>k' \<in> fst ` set pre. \<not> isPartial keys exclude k'"
    unfolding isPartial_iff by blast
  ultimately show "getValue r keys exclude = v"
    by (intro getValue_partial [of r pre k v post])
next
  assume "\<forall>k \<in> fst ` set r.
            \<not> (\<exists>s \<in> set keys. toLowerCase k = toLowerCase s)
            \<and> \<not> ((\<exists>s \<in> set keys. js_includes (toLowerCase k) (toLowerCase s))
                 \<and> \<not> (\<exists>e \<in> set exclude. js_includes (toLowerCase k) (toLowerCase e)))"
  then show "getValue r keys exclude = Undefined"
    by (intro getValue_none) (simp add: isExact_iff isPartial_iff)
qed

text \<open>
  The theorem at three rows: an exact match that stands after a partial match, a partial
  match that stands after an excluded column, and a row with no qualifying column.
\<close>

theorem getValue_two_tier_witness:
  "getValue [(''Unit Price'', Num 5), (''PRICE'', Num 120)] [''price'', ''cost''] [''option''] = Num 120
   \<and> getValue [(''Option Price'', Num 5), (''Unit Price'', Num 99)] [''price'', ''cost''] [''option''] = Num 99
   \<and> getValue [(''Option Price'', Num 5), (''Note'', Str ''x'')] [''price'', ''cost''] [''option''] = Undefined"
proof -
  let ?keys = "[''price'', ''cost'']" and ?ex = "[''option'']"
  let ?r1 = "[(''Unit Price'', Num 5), (''PRICE'', Num 120)]"
  let ?r2 = "[(''Option Price'', Num 5), (''Unit Price'', Num 99)]"
  let ?r3 = "[(''Option Price'', Num 5), (''Note'', Str ''x'')]"
  have h1: "\<forall>k \<in> fst ` set ?r1. k \<noteq> []" by simp
  have h2: "\<forall>k \<in> fst ` set ?r2. k \<noteq> []" by simp
  have h3: "\<forall>k \<in> fst ` set ?r3. k \<noteq> []" by simp
  have e1: "?r1 = [(''Unit Price'', Num 5)] @ (''PRICE'', Num 120) # []
        \<and> (\<exists>s \<in> set ?keys. toLowerCase ''PRICE'' = toLowerCase s)
        \<and> (\<forall>k' \<in> fst ` set [(''Unit Price'', Num 5)]. \<not> (\<exists>s \<in> set ?keys. toLowerCase k' = toLowerCase s))"
    by (simp add: toLowerCase_def)
  have c1: "getValue ?r1 ?keys ?ex = Num 120"
    using getValue_two_tier [OF h1, of ?keys ?ex, THEN conjunct1, rule_format, OF e1] .
  have e2: "?r2 = [(''Option Price'', Num 5)] @ (''Unit Price'', Num 99) # []
        \<and> (\<forall>k' \<in> fst ` set ?r2. \<not> (\<exists>s \<in> set ?keys. toLowerCase k' = toLowerCase s))
        \<and> (\<exists>s \<in> set ?keys. js_includes (toLowerCase ''Unit Price'') (toLowerCase s))
        \<and> \<not> (\<exists>e \<in> set ?ex. js_includes (toLowerCase ''Unit Price'') (toLowerCase e))
        \<and> (\<forall>k' \<in> fst ` set [(''Option Price'', Num 5)].
              \<not> ((\<exists>s \<in> set ?keys. js_includes (toLowerCase k') (toLowerCase s))
                 \<and> \<not> (\<exists>e \<in> set ?ex. js_includes (toLowerCase k') (toLowerCase e))))"
    by (simp add: toLowerCase_def)
  have c2: "getValue ?r2 ?keys ?ex = Num 99"
    using getValue_two_tier [OF h2, of ?keys ?ex, THEN conjunct2, THEN conjunct1, rule_format, OF e2] .
  have e3: "\<forall>k \<in> fst ` set ?r3.
            \<not> (\<exists>s \<in> set ?keys. toLowerCase k = toLowerCase s)
            \<and> \<not> ((\<exists>s \<in> set ?keys. js_includes (toLowerCase k) (toLowerCase s))
                 \<and> \<not> (\<exists>e \<in> set ?ex. js_includes (toLowerCase k) (toLowerCase e)))"
    by (simp add: toLowerCase_def)
  have c3: "getValue ?r3 ?keys ?ex = Undefined"
    using getValue_two_tier [OF h3, of ?keys ?ex, THEN conjunct2, THEN conjunct2, THEN mp, OF e3] .
  show ?thesis using c1 c2 c3 by blast
qed

text \<open>
  Claim C1 as stated fails. With the synonyms \<open>category\<close>, \<open>type\<close> and the columns
  \<open>Type\<close>, \<open>Category\<close> in this order, the first synonym that equals a header is
  \<open>category\<close>, whose column holds \<open>B\<close>; \<open>getValue\<close> returns \<open>A\<close>, the value of the
  first column that equals any synonym.
\<close>

theorem getValue_synonym_order_counterexample:
  "getValue [(''Type'', Str ''A''), (''Category'', Str ''B'')] [''category'', ''type''] [] = Str ''A''
   \<and> getValue_spec [(''Type'', Str ''A''), (''Category'', Str ''B'')] [''category'', ''type''] []
       = Str ''B''"
  by code_simp

section \<open>Properties: header row detection\<close>

lemma scanHeader_out: "\<not> i < min (length rows) 10 \<Longrightarrow> scanHeader rows i = 0"
  by (subst scanHeader.simps) (simp only: if_False)

lemma scanHeader_hit:
  "i < min (length rows) 10 \<Longrightarrow> 2 \<le> matchCount (rows ! i) \<Longrightarrow> scanHeader rows i = i"
  by (subst scanHeader.simps) (simp only: if_True)

lemma scanHeader_miss:
  "i < min (length rows) 10 \<Longrightarrow> \<not> 2 \<le> matchCount (rows ! i)
   \<Longrightarrow> scanHeader rows i = scanHeader rows (i + 1)"
  by (subst scanHeader.simps) (simp only: if_True if_False)

lemma scanHeader_found:
  "i \<le> n \<Longrightarrow> n < min (length rows) 10 \<Longrightarrow> 2 \<le> matchCount (rows ! n)
   \<Longrightarrow> \<forall>j. i \<le> j \<and> j < n \<longrightarrow> matchCount (rows ! j) < 2
   \<Longrightarrow> scanHeader rows i = n"
proof (induction rows i rule: scanHeader.induct)
  case (1 rows i)
  show ?case
  proof (cases "i = n")
    case True
    with "1.prems" show ?thesis by (simp add: scanHeader_hit)
  next
    case False
    with "1.prems" have lt: "i < n" by simp
    with "1.prems" have small: "\<not> 2 \<le> matchCount (rows ! i)" by (simp add: not_le)
    from lt "1.prems" have inside: "i < min (length rows) 10" by simp
    have "scanHeader rows (i + 1) = n"
      using "1.prems" lt small inside by (intro "1.IH") auto
    with scanHeader_miss [OF inside small] show ?thesis by simp
  qed
qed

lemma scanHeader_default:
  "\<forall>j. i \<le> j \<and> j < min (length rows) 10 \<longrightarrow> matchCount (rows ! j) < 2
   \<Longrightarrow> scanHeader rows i = 0"
proof (induction rows i rule: scanHeader.induct)
  case (1 rows i)
  show ?case
  proof (cases "i < min (length rows) 10")
    case True
    with "1.prems" have small: "\<not> 2 \<le> matchCount (rows ! i)" by (simp add: not_le)
    have "scanHeader rows (i + 1) = 0"
      using "1.prems" True small by (intro "1.IH") auto
    with scanHeader_miss [OF True small] show ?thesis by simp
  next
    case False
    then show ?thesis by (rule scanHeader_out)
  qed
qed

lemma scanHeader_take: "scanHeader (take 10 rows) i = scanHeader rows i"
proof (induction rows i rule: scanHeader.induct)
  case (1 rows i)
  show ?case
  proof (cases "i < min (length rows) 10")
    case True
    then have nth: "take 10 rows ! i = rows ! i" by simp
    from True have inside: "i < min (length (take 10 rows)) 10" by simp
    show ?thesis
    proof (cases "2 \<le> matchCount (rows ! i)")
      case hit: True
      with True have "scanHeader rows i = i" by (rule scanHeader_hit)
      moreover from inside hit nth have "scanHeader (take 10 rows) i = i"
        by (intro scanHeader_hit) simp_all
      ultimately show ?thesis by simp
    next
      case miss: False
      with True have "scanHeader (take 10 rows) (i + 1) = scanHeader rows (i + 1)"
        by (intro "1.IH") auto
      moreover from True miss have "scanHeader rows i = scanHeader rows (i + 1)"
        by (rule scanHeader_miss)
      moreover from inside miss nth
      have "scanHeader (take 10 rows) i = scanHeader (take 10 rows) (i + 1)"
        by (intro scanHeader_miss) simp_all
      ultimately show ?thesis by simp
    qed
  next
    case False
    then have "\<not> i < min (length (take 10 rows)) 10" by simp
    then have "scanHeader (take 10 rows) i = 0" by (rule scanHeader_out)
    moreover from False have "scanHeader rows i = 0" by (rule scanHeader_out)
    ultimately show ?thesis by simp
  qed
qed

lemma searchKeywords_distinct: "distinct searchKeywords"
  by (simp add: searchKeywords_def th_chue_def th_raikan_def th_muat_def th_rakha_def)

lemma searchKeywords_lower: "map toLowerCase searchKeywords = searchKeywords"
  by (simp add: searchKeywords_def th_chue_def th_raikan_def th_muat_def th_rakha_def toLowerCase_def)

lemma matchCount_card:
  "matchCount cells =
     card {k \<in> set searchKeywords. js_includes (toLowerCase (jsonStringify cells)) (toLowerCase k)}"
proof -
  have "\<forall>k \<in> set searchKeywords. toLowerCase k = k"
    using searchKeywords_lower by (metis map_eq_conv map_ident)
  then have "{k \<in> set searchKeywords. js_includes (toLowerCase (jsonStringify cells)) (toLowerCase k)}
      = set (filter (\<lambda>k. js_includes (toLowerCase (jsonStringify cells)) k) searchKeywords)"
    by auto
  moreover have "distinct (filter (\<lambda>k. js_includes (toLowerCase (jsonStringify cells)) k) searchKeywords)"
    using searchKeywords_distinct by simp
  ultimately show ?thesis
    by (simp only: matchCount_def Let_def distinct_card)
qed


text \<open>
  Claim C2. The header row is the topmost row, among the first ten, whose count reaches 2,
  and row 0 when no row of the window does; rows beyond the tenth never matter. The count
  of a row is the number of the nine keywords that occur in the lowered JSON text of the
  row, compared case-insensitively. A sheet with rows is folded with the row objects read
  under that header row, and a sheet with no rows leaves the accumulators as they are.
\<close>

theorem headerRowIndex_first_match:
  "(\<forall>i. i < length rows \<and> i < 10 \<and> 2 \<le> matchCount (rows ! i)
         \<and> (\<forall>j. j < i \<longrightarrow> matchCount (rows ! j) < 2)
       \<longrightarrow> headerRowIndex rows = i)
   \<and> ((\<forall>i. i < length rows \<and> i < 10 \<longrightarrow> matchCount (rows ! i) < 2)
       \<longrightarrow> headerRowIndex rows = 0)
   \<and> headerRowIndex (take 10 rows) = headerRowIndex rows
   \<and> matchCount cells =
       card {k \<in> set [''name'', ''menu'', ''item'', ''category'', ''price'',
                       th_chue, th_raikan, th_muat, th_rakha].
             js_includes (toLowerCase (jsonStringify cells)) (toLowerCase k)}
   \<and> (sheetRows sh \<noteq> [] \<longrightarrow>
        processSheet sh st = processRows (sheetRecords sh (headerRowIndex (sheetRows sh))) st)
   \<and> (sheetRows sh = [] \<longrightarrow> processSheet sh st = st)"
proof (intro conjI allI impI)
  fix i
  assume "i < length rows \<and> i < 10 \<and> 2 \<le> matchCount (rows ! i)
         \<and> (\<forall>j. j < i \<longrightarrow> matchCount (rows ! j) < 2)"
  then show "headerRowIndex rows = i"
    unfolding headerRowIndex_def by (intro scanHeader_found) auto
next
  assume "\<forall>i. i < length rows \<and> i < 10 \<longrightarrow> matchCount (rows ! i) < 2"
  then show "headerRowIndex rows = 0"
    unfolding headerRowIndex_def by (intro scanHeader_default) auto
next
  show "headerRowIndex (take 10 rows) = headerRowIndex rows"
    unfolding headerRowIndex_def by (rule scanHeader_take)
next
  have "set [''name'', ''menu'', ''item'', ''category'', ''price'',
             th_chue, th_raikan, th_muat, th_rakha] = set searchKeywords"
    unfolding searchKeywords_def by auto
  then show "matchCount cells =
       card {k \<in> set [''name'', ''menu'', ''item'', ''category'', ''price'',
                       th_chue, th_raikan, th_muat, th_rakha].
             js_includes (toLowerCase (jsonStringify cells)) (toLowerCase k)}"
    by (simp only: matchCount_card)
next
  assume "sheetRows sh \<noteq> []"
  then show "processSheet sh st = processRows (sheetRecords sh (headerRowIndex (sheetRows sh))) st"
    by (simp add: processSheet_def)
next
  assume "sheetRows sh = []"
  then show "processSheet sh st = st"
    by (simp add: processSheet_def)
qed

text \<open>
  The theorem at a sheet whose header is its third row, at a sheet with no keyword row,
  and at a sheet with no rows.
\<close>

theorem headerRowIndex_first_match_witness:
  "headerRowIndex titledSheet = 2
   \<and> headerRowIndex [[Str ''SeoulGood''], [Str ''Kimchi'', Num 120]] = 0
   \<and> processSheet \<lparr>sheetRows = [], sheetRecords = (\<lambda>h. [[(''Name'', Str ''Kimchi'')]])\<rparr> emptyAccum
       = emptyAccum"
proof -
  have m0: "matchCount [Str ''SeoulGood menu''] = 1" by code_simp
  have m1: "matchCount [] = 0" by code_simp
  have m2: "matchCount [Str ''Name'', Str ''Price''] = 2" by code_simp
  have below: "\<forall>j. j < (2::nat) \<longrightarrow> matchCount (titledSheet ! j) < 2"
  proof (intro allI impI)
    fix j :: nat
    assume "j < 2"
    then have "j = 0 \<or> j = 1" by auto
    then show "matchCount (titledSheet ! j) < 2"
      using m0 m1 by (auto simp: titledSheet_def)
  qed
  have at2: "2 \<le> matchCount (titledSheet ! 2)"
    using m2 by (simp add: titledSheet_def)
  have len: "2 < length titledSheet \<and> (2::nat) < 10" by (simp add: titledSheet_def)
  have c1: "headerRowIndex titledSheet = 2"
    using headerRowIndex_first_match [of titledSheet, THEN conjunct1, THEN spec, of 2]
      len at2 below by blast
  let ?plain = "[[Str ''SeoulGood''], [Str ''Kimchi'', Num 120]]"
  have p0: "matchCount [Str ''SeoulGood''] = 0" by code_simp
  have p1: "matchCount [Str ''Kimchi'', Num 120] = 0" by code_simp
  have none: "\<forall>i. i < length ?plain \<and> i < 10 \<longrightarrow> matchCount (?plain ! i) < 2"
  proof (intro allI impI)
    fix i :: nat
    assume "i < length ?plain \<and> i < 10"
    then have "i = 0 \<or> i = 1" by auto
    then show "matchCount (?plain ! i) < 2"
      using p0 p1 by auto
  qed
  have c2: "headerRowIndex ?plain = 0"
    using headerRowIndex_first_match [of ?plain, THEN conjunct2, THEN conjunct1] none by blast
  let ?sh = "\<lparr>sheetRows = [], sheetRecords = (\<lambda>h. [[(''Name'', Str ''Kimchi'')]])\<rparr>"
  have c3: "processSheet ?sh emptyAccum = emptyAccum"
    using headerRowIndex_first_match [of _ _ ?sh emptyAccum] by simp
  show ?thesis using c1 c2 c3 by blast
qed

section \<open>Properties: fetch failures\<close>

text \<open>
  Claim C7. When \<open>fetch\<close> rejects, or the response carries an HTML content type, or the
  response is not \<open>ok\<close>, or the body does not decode, the \<open>try\<close> block throws; and
  whenever it throws, \<open>fetchMenuFromSheet\<close> still returns a value, the empty result
  \<open>{items: [], config: {}}\<close>. The function returns a result for every outcome of the
  fetch: no throw leaves it.
\<close>

theorem fetch_failure_gives_empty_result:
  "((f = Rejected
      \<or> (\<exists>resp. f = Resolved resp
            \<and> ((\<exists>ct. contentType resp = Some ct \<and> js_includes ct ''text/html'')
                \<or> \<not> ok resp \<or> body resp = None)))
     \<longrightarrow> (\<exists>e. tryLoad f = Inl e))
   \<and> ((\<exists>e. tryLoad f = Inl e) \<longrightarrow> fetchMenuFromSheet f = \<lparr>items = [], config = emptyConfig\<rparr>)"
proof (intro conjI impI)
  assume "f = Rejected
      \<or> (\<exists>resp. f = Resolved resp
            \<and> ((\<exists>ct. contentType resp = Some ct \<and> js_includes ct ''text/html'')
                \<or> \<not> ok resp \<or> body resp = None))"
  then show "\<exists>e. tryLoad f = Inl e"
  proof
    assume "f = Rejected"
    then show ?thesis by (simp add: tryLoad_def)
  next
    assume "\<exists>resp. f = Resolved resp
            \<and> ((\<exists>ct. contentType resp = Some ct \<and> js_includes ct ''text/html'')
                \<or> \<not> ok resp \<or> body resp = None)"
    then obtain resp where f: "f = Resolved resp"
      and bad: "(\<exists>ct. contentType resp = Some ct \<and> js_includes ct ''text/html'')
                \<or> \<not> ok resp \<or> body resp = None"
      by blast
    have nonempty: "\<not> js_includes [] ''text/html''" by simp
    show ?thesis
    proof (cases "\<exists>ct. contentType resp = Some ct \<and> js_includes ct ''text/html''")
      case True
      then obtain ct where "contentType resp = Some ct" and "js_includes ct ''text/html''"
        by blast
      moreover from this nonempty have "ct \<noteq> []" by blast
      ultimately show ?thesis using f by (simp add: tryLoad_def)
    next
      case False
      with bad have "\<not> ok resp \<or> body resp = None" by simp
      then show ?thesis using f
        by (auto simp: tryLoad_def split: option.splits)
    qed
  qed
next
  assume "\<exists>e. tryLoad f = Inl e"
  then show "fetchMenuFromSheet f = \<lparr>items = [], config = emptyConfig\<rparr>"
    by (auto simp: fetchMenuFromSheet_def)
qed

text \<open>
  The theorem at an HTML response that carries a decodable workbook, at a rejected fetch
  and at a response that is not \<open>ok\<close>.
\<close>

theorem fetch_failure_gives_empty_result_witness:
  "fetchMenuFromSheet (Resolved htmlResponse) = \<lparr>items = [], config = emptyConfig\<rparr>
   \<and> fetchMenuFromSheet Rejected = \<lparr>items = [], config = emptyConfig\<rparr>
   \<and> fetchMenuFromSheet (Resolved (htmlResponse\<lparr>contentType := None, ok := False\<rparr>))
       = \<lparr>items = [], config = emptyConfig\<rparr>"
proof -
  have html: "js_includes ''text/html; charset=utf-8'' ''text/html''" by simp
  have c1: "fetchMenuFromSheet (Resolved htmlResponse) = \<lparr>items = [], config = emptyConfig\<rparr>"
    using fetch_failure_gives_empty_result [of "Resolved htmlResponse"] html
    by (simp add: htmlResponse_def)
  have c2: "fetchMenuFromSheet Rejected = \<lparr>items = [], config = emptyConfig\<rparr>"
    using fetch_failure_gives_empty_result [of Rejected] by simp
  have c3: "fetchMenuFromSheet (Resolved (htmlResponse\<lparr>contentType := None, ok := False\<rparr>))
       = \<lparr>items = [], config = emptyConfig\<rparr>"
    using fetch_failure_gives_empty_result
      [of "Resolved (htmlResponse\<lparr>contentType := None, ok := False\<rparr>)"]
    by simp
  show ?thesis using c1 c2 c3 by blast
qed

section \<open>Properties: item creation\<close>

lemma map_of_snoc_new: "map_of xs k = None \<Longrightarrow> map_of (xs @ [(k, v)]) k = Some v"
  by (simp add: map_add_def)

lemma processRow_creates:
  assumes "\<not> isConfigRow r" and "truthy (rowRawName r)"
    and "map_of (groupedItems st) (rowName r) = None"
    and "rowName r \<notin> set objectPrototypeKeys"
  shows "processRow r st =
           st\<lparr>groupedItems := groupedItems st
                 @ [(rowName r, (newItem r (length (groupedItems st)))\<lparr>i_options := parseOptions r []\<rparr>)]\<rparr>"
  using assms by (simp add: processRow_def Let_def newItem_def)

text \<open>
  Claim C5, as the code has it. A row that creates an item stores it under its name with
  the price coerced from the price cell and the description taken from the description
  cell, and the item is spicy exactly when its name contains \<open>Spicy\<close>, \<open>th_tomyam\<close> or
  \<open>th_phet\<close>, or its description is present and contains \<open>th_phrik\<close>. The description
  is searched for \<open>th_phrik\<close> only, the name for the other three only.
\<close>

theorem created_item_isSpicy:
  assumes "\<not> isConfigRow r" and "truthy (rowRawName r)"
    and "map_of (groupedItems st) (rowName r) = None"
    and "rowName r \<notin> set objectPrototypeKeys"
  shows "\<exists>it. map_of (groupedItems (processRow r st)) (rowName r) = Some it
           \<and> i_name it = rowName r
           \<and> i_price it = numberOrZero (getValue r priceKeys [''option''])
           \<and> i_description it =
               (if truthy (getValue r descriptionKeys [])
                then Some (toStr (getValue r descriptionKeys [])) else None)
           \<and> (i_isSpicy it \<longleftrightarrow>
                 js_includes (i_name it) ''Spicy''
                 \<or> (\<exists>d. i_description it = Some d \<and> js_includes d th_phrik)
                 \<or> js_includes (i_name it) th_tomyam
                 \<or> js_includes (i_name it) th_phet)"
proof -
  let ?it = "(newItem r (length (groupedItems st)))\<lparr>i_options := parseOptions r []\<rparr>"
  have "processRow r st = st\<lparr>groupedItems := groupedItems st @ [(rowName r, ?it)]\<rparr>"
    using assms by (rule processRow_creates)
  then have "map_of (groupedItems (processRow r st)) (rowName r) = Some ?it"
    using assms(3) by (simp add: map_add_def)
  moreover have "i_name ?it = rowName r" by (simp add: newItem_def Let_def)
  moreover have "i_price ?it = numberOrZero (getValue r priceKeys [''option''])"
    by (simp add: newItem_def Let_def)
  moreover have "i_description ?it =
               (if truthy (getValue r descriptionKeys [])
                then Some (toStr (getValue r descriptionKeys [])) else None)"
    by (simp add: newItem_def Let_def)
  moreover have "i_isSpicy ?it \<longleftrightarrow>
                 js_includes (i_name ?it) ''Spicy''
                 \<or> (\<exists>d. i_description ?it = Some d \<and> js_includes d th_phrik)
                 \<or> js_includes (i_name ?it) th_tomyam
                 \<or> js_includes (i_name ?it) th_phet"
    by (simp add: newItem_def Let_def rowIsSpicy_def)
  ultimately show ?thesis by blast
qed

text \<open>
  The theorem at the Kimchi Fried Rice row, which is not spicy, and at a row whose
  description names chili, which is.
\<close>

theorem created_item_isSpicy_witness:
  "(\<exists>it. map_of (groupedItems (processRow kimchiRow emptyAccum)) ''Kimchi Fried Rice'' = Some it
          \<and> i_price it = 120 \<and> \<not> i_isSpicy it)
   \<and> (\<exists>it. map_of (groupedItems (processRow phrikRow emptyAccum)) ''Pad Krapao'' = Some it
          \<and> i_isSpicy it)"
proof -
  have k1: "\<not> isConfigRow kimchiRow" by code_simp
  have k2: "truthy (rowRawName kimchiRow)" by code_simp
  have k3: "rowName kimchiRow = ''Kimchi Fried Rice''" by code_simp
  have k4: "map_of (groupedItems emptyAccum) (rowName kimchiRow) = None"
    by (simp add: emptyAccum_def)
  have k5: "rowName kimchiRow \<notin> set objectPrototypeKeys"
    unfolding k3 by code_simp
  have k6: "getValue kimchiRow descriptionKeys [] = Str (th_phet @ th_nit)" by code_simp
  have k7: "getValue kimchiRow priceKeys [''option''] = Num 120" by code_simp
  have k8: "\<not> js_includes ''Kimchi Fried Rice'' ''Spicy''
            \<and> \<not> js_includes (th_phet @ th_nit) th_phrik
            \<and> \<not> js_includes ''Kimchi Fried Rice'' th_tomyam
            \<and> \<not> js_includes ''Kimchi Fried Rice'' th_phet" by code_simp
  have k9: "truthy (Str (th_phet @ th_nit))" by code_simp
  have c1: "\<exists>it. map_of (groupedItems (processRow kimchiRow emptyAccum)) ''Kimchi Fried Rice'' = Some it
          \<and> i_price it = 120 \<and> \<not> i_isSpicy it"
  proof -
    from created_item_isSpicy [OF k1 k2 k4 k5]
    obtain it where a: "map_of (groupedItems (processRow kimchiRow emptyAccum)) (rowName kimchiRow) = Some it"
      and n: "i_name it = rowName kimchiRow"
      and p: "i_price it = numberOrZero (getValue kimchiRow priceKeys [''option''])"
      and d: "i_description it =
               (if truthy (getValue kimchiRow descriptionKeys [])
                then Some (toStr (getValue kimchiRow descriptionKeys [])) else None)"
      and s: "i_isSpicy it \<longleftrightarrow>
                 js_includes (i_name it) ''Spicy''
                 \<or> (\<exists>d. i_description it = Some d \<and> js_includes d th_phrik)
                 \<or> js_includes (i_name it) th_tomyam
                 \<or> js_includes (i_name it) th_phet"
      by blast
    have d': "i_description it = Some (th_phet @ th_nit)"
      using d k9 unfolding k6 by simp
    have "\<not> i_isSpicy it"
      using s k8 unfolding n k3 d' by blast
    moreover have "i_price it = 120" using p unfolding k7 by simp
    ultimately show ?thesis using a unfolding k3 by blast
  qed
  have p1: "\<not> isConfigRow phrikRow" by code_simp
  have p2: "truthy (rowRawName phrikRow)" by code_simp
  have p3: "rowName phrikRow = ''Pad Krapao''" by code_simp
  have p4: "map_of (groupedItems emptyAccum) (rowName phrikRow) = None"
    by (simp add: emptyAccum_def)
  have p5: "rowName phrikRow \<notin> set objectPrototypeKeys"
    unfolding p3 by code_simp
  have p6: "getValue phrikRow descriptionKeys [] = Str th_phrik" by code_simp
  have p8: "js_includes th_phrik th_phrik" by code_simp
  have p9: "truthy (Str th_phrik)" by code_simp
  have c2: "\<exists>it. map_of (groupedItems (processRow phrikRow emptyAccum)) ''Pad Krapao'' = Some it
          \<and> i_isSpicy it"
  proof -
    from created_item_isSpicy [OF p1 p2 p4 p5]
    obtain it where a: "map_of (groupedItems (processRow phrikRow emptyAccum)) (rowName phrikRow) = Some it"
      and d: "i_description it =
               (if truthy (getValue phrikRow descriptionKeys [])
                then Some (toStr (getValue phrikRow descriptionKeys [])) else None)"
      and s: "i_isSpicy it \<longleftrightarrow>
                 js_includes (i_name it) ''Spicy''
                 \<or> (\<exists>d. i_description it = Some d \<and> js_includes d th_phrik)
                 \<or> js_includes (i_name it) th_tomyam
                 \<or> js_includes (i_name it) th_phet"
      by blast
    have d': "i_description it = Some th_phrik"
      using d p9 unfolding p6 by simp
    have "i_isSpicy it"
      using s p8 d' by blast
    then show ?thesis using a unfolding p3 by blast
  qed
  show ?thesis using c1 c2 by blast
qed

text \<open>
  Claim C5 as stated fails at its own scenario: the description contains \<open>th_phet\<close>, the
  name contains none of the markers, and the item produced has \<open>isSpicy = false\<close>.
\<close>

theorem kimchi_row_isSpicy_counterexample:
  "map (\<lambda>it. (i_name it, i_price it, i_description it, i_isSpicy it))
       (items (menuData (processRows [kimchiRow] emptyAccum)))
     = [(''Kimchi Fried Rice'', 120, Some (th_phet @ th_nit), False)]"
  by code_simp

section \<open>Properties: configuration rows\<close>

lemma split_no_sep: "c \<notin> set s \<Longrightarrow> split c s = [s]"
  by (induction s) auto

lemma split_append_sep: "split c (xs @ c # ys) = split c xs @ split c ys"
proof (induction xs)
  case Nil
  then show ?case by simp
next
  case (Cons x xs)
  obtain p ps where "split c xs = p # ps"
    using split_not_Nil [of c xs] by (cases "split c xs") auto
  with Cons show ?case by simp
qed

lemma last_split: "c \<notin> set seg \<Longrightarrow> last (split c (pre @ c # seg)) = seg"
  by (simp add: split_append_sep split_no_sep split_not_Nil)

lemma hd_split: "hd (split c s) = takeWhile (\<lambda>x. x \<noteq> c) s"
proof (induction s)
  case Nil
  then show ?case by simp
next
  case (Cons x s)
  obtain p ps where "split c s = p # ps"
    using split_not_Nil [of c s] by (cases "split c s") auto
  with Cons show ?case by auto
qed

lemma processRow_config:
  "isConfigRow r \<Longrightarrow> processRow r st = st\<lparr>appConfig := configStep r (appConfig st)\<rparr>"
  by (simp add: processRow_def)

text \<open>
  Claim C6, as the code has it. A configuration row whose lowered name contains \<open>line\<close>
  and none of \<open>logo\<close>, \<open>qr\<close>, \<open>payment\<close> sets \<open>lineOaId\<close> from the processed image
  field when that is non-empty, and otherwise from the first column that resolves among
  the price, value, description and option synonyms when its cell is truthy; when both
  are empty the row changes nothing. The identifier written is the trimmed text, and when
  that text contains \<open>line.me\<close> it is the part after its final \<open>/\<close>, cut at the first
  \<open>?\<close>.
\<close>

theorem line_row_sets_lineOaId:
  assumes "isConfigRow r"
    and "js_includes (toLowerCase (rowName r)) ''line''"
    and "\<not> js_includes (toLowerCase (rowName r)) ''logo''"
    and "\<not> js_includes (toLowerCase (rowName r)) ''qr''"
    and "\<not> js_includes (toLowerCase (rowName r)) ''payment''"
  shows
    "(rowProcessedImg r \<noteq> [] \<longrightarrow>
        processRow r st = st\<lparr>appConfig := (appConfig st)
          \<lparr>lineOaId := Some (extractLineId (Str (rowProcessedImg r)))\<rparr>\<rparr>)
     \<and> (rowProcessedImg r = [] \<and> truthy (getValue r lineValueKeys []) \<longrightarrow>
        processRow r st = st\<lparr>appConfig := (appConfig st)
          \<lparr>lineOaId := Some (extractLineId (getValue r lineValueKeys []))\<rparr>\<rparr>)
     \<and> (rowProcessedImg r = [] \<and> \<not> truthy (getValue r lineValueKeys []) \<longrightarrow>
        processRow r st = st)
     \<and> (\<forall>v pre seg. truthy v \<and> js_includes (trim (toStr v)) ''line.me''
           \<and> trim (toStr v) = pre @ CHR ''/'' # seg \<and> CHR ''/'' \<notin> set seg
         \<longrightarrow> extractLineId v = takeWhile (\<lambda>c. c \<noteq> CHR ''?'') seg)
     \<and> (\<forall>v. truthy v \<and> \<not> js_includes (trim (toStr v)) ''line.me''
         \<longrightarrow> extractLineId v = trim (toStr v))"
proof (intro conjI allI impI)
  assume "rowProcessedImg r \<noteq> []"
  then show "processRow r st = st\<lparr>appConfig := (appConfig st)
          \<lparr>lineOaId := Some (extractLineId (Str (rowProcessedImg r)))\<rparr>\<rparr>"
    using assms by (simp add: processRow_config configStep_def linePossibleId_def Let_def)
next
  assume "rowProcessedImg r = [] \<and> truthy (getValue r lineValueKeys [])"
  then show "processRow r st = st\<lparr>appConfig := (appConfig st)
          \<lparr>lineOaId := Some (extractLineId (getValue r lineValueKeys []))\<rparr>\<rparr>"
    using assms by (simp add: processRow_config configStep_def linePossibleId_def Let_def)
next
  assume "rowProcessedImg r = [] \<and> \<not> truthy (getValue r lineValueKeys [])"
  then show "processRow r st = st"
    using assms by (simp add: processRow_config configStep_def linePossibleId_def Let_def)
next
  fix v pre seg
  assume "truthy v \<and> js_includes (trim (toStr v)) ''line.me''
           \<and> trim (toStr v) = pre @ CHR ''/'' # seg \<and> CHR ''/'' \<notin> set seg"
  then have t: "truthy v" and inc: "js_includes (trim (toStr v)) ''line.me''"
    and eq: "trim (toStr v) = pre @ CHR ''/'' # seg" and seg: "CHR ''/'' \<notin> set seg"
    by blast+
  have "extractLineId v = hd (split CHR ''?'' (last (split CHR ''/'' (trim (toStr v)))))"
    using t inc by (simp add: extractLineId_def Let_def)
  also have "last (split CHR ''/'' (trim (toStr v))) = seg"
    unfolding eq using seg by (rule last_split)
  finally show "extractLineId v = takeWhile (\<lambda>c. c \<noteq> CHR ''?'') seg"
    by (simp only: hd_split)
next
  fix v
  assume "truthy v \<and> \<not> js_includes (trim (toStr v)) ''line.me''"
  then show "extractLineId v = trim (toStr v)"
    by (simp add: extractLineId_def Let_def)
qed

text \<open>
  The theorem at the scenario row \<open>{Category: "Setting", Name: "Line", Price:
  "https://line.me/R/ti/p/@seoulgood"}\<close>: the configuration holds \<open>@seoulgood\<close>.
\<close>

theorem line_row_sets_lineOaId_witness:
  "appConfig (processRow lineRow emptyAccum) = emptyConfig\<lparr>lineOaId := Some ''@seoulgood''\<rparr>"
proof -
  have a1: "isConfigRow lineRow" by code_simp
  have a2: "js_includes (toLowerCase (rowName lineRow)) ''line''" by code_simp
  have a3: "\<not> js_includes (toLowerCase (rowName lineRow)) ''logo''" by code_simp
  have a4: "\<not> js_includes (toLowerCase (rowName lineRow)) ''qr''" by code_simp
  have a5: "\<not> js_includes (toLowerCase (rowName lineRow)) ''payment''" by code_simp
  have img: "rowProcessedImg lineRow = []" by code_simp
  have val: "getValue lineRow lineValueKeys [] = Str ''https://line.me/R/ti/p/@seoulgood''"
    by code_simp
  let ?v = "Str ''https://line.me/R/ti/p/@seoulgood''"
  have t: "truthy ?v" by simp
  have tr: "trim (toStr ?v) = ''https://line.me/R/ti/p'' @ CHR ''/'' # ''@seoulgood''"
    by code_simp
  have inc: "js_includes (trim (toStr ?v)) ''line.me''" by code_simp
  have seg: "CHR ''/'' \<notin> set ''@seoulgood''" by simp
  note inst = line_row_sets_lineOaId [OF a1 a2 a3 a4 a5, of emptyAccum]
  have step: "processRow lineRow emptyAccum = emptyAccum\<lparr>appConfig := (appConfig emptyAccum)
          \<lparr>lineOaId := Some (extractLineId ?v)\<rparr>\<rparr>"
    using inst [THEN conjunct2, THEN conjunct1] img val t by simp
  have strip: "extractLineId ?v = takeWhile (\<lambda>c. c \<noteq> CHR ''?'') ''@seoulgood''"
    using inst [THEN conjunct2, THEN conjunct2, THEN conjunct2, THEN conjunct1, rule_format,
        of ?v "''https://line.me/R/ti/p''" "''@seoulgood''"] t inc tr seg
    by blast
  show ?thesis
    unfolding step strip by (simp add: emptyAccum_def)
qed

text \<open>
  Claim C6 as stated fails for a configuration row whose name contains \<open>line\<close> and also
  \<open>qr\<close>: the chain of tests reaches the QR branch first, the image goes to
  \<open>qrCodeUrl\<close>, and \<open>lineOaId\<close> stays unset.
\<close>

theorem line_qr_row_counterexample:
  "isConfigRow lineQrRow
   \<and> js_includes (toLowerCase (rowName lineQrRow)) ''line''
   \<and> rowProcessedImg lineQrRow = ''https://line.me/R/ti/p/@seoulgood''
   \<and> appConfig (processRow lineQrRow emptyAccum)
       = \<lparr>logoUrl = None, qrCodeUrl = Some ''https://line.me/R/ti/p/@seoulgood'', lineOaId = None\<rparr>"
  by code_simp

lemma rowProcessedImg_unresolved:
  "\<not> truthy (getValue r imageKeys []) \<Longrightarrow> rowProcessedImg r = []"
  by (simp add: rowProcessedImg_def)

text \<open>
  Claim C10, as the code has it. A configuration row whose lowered name contains \<open>logo\<close>
  and whose image field resolves to nothing truthy sets \<open>logoUrl\<close> to the empty string,
  whatever it held; a configuration row whose lowered name contains \<open>qr\<close> or \<open>payment\<close>,
  and not \<open>logo\<close>, does the same to \<open>qrCodeUrl\<close>; and a configuration row whose lowered
  name contains \<open>line\<close> and whose image and fallback fields are all empty leaves
  \<open>lineOaId\<close> as it was.
\<close>

theorem unresolved_image_erases:
  "(isConfigRow r \<and> js_includes (toLowerCase (rowName r)) ''logo''
      \<and> \<not> truthy (getValue r imageKeys [])
     \<longrightarrow> processRow r st = st\<lparr>appConfig := (appConfig st)\<lparr>logoUrl := Some []\<rparr>\<rparr>)
   \<and> (isConfigRow r \<and> \<not> js_includes (toLowerCase (rowName r)) ''logo''
      \<and> (js_includes (toLowerCase (rowName r)) ''qr''
          \<or> js_includes (toLowerCase (rowName r)) ''payment'')
      \<and> \<not> truthy (getValue r imageKeys [])
     \<longrightarrow> processRow r st = st\<lparr>appConfig := (appConfig st)\<lparr>qrCodeUrl := Some []\<rparr>\<rparr>)
   \<and> (isConfigRow r \<and> js_includes (toLowerCase (rowName r)) ''line''
      \<and> rowProcessedImg r = [] \<and> \<not> truthy (getValue r lineValueKeys [])
     \<longrightarrow> lineOaId (appConfig (processRow r st)) = lineOaId (appConfig st))"
proof (intro conjI impI)
  assume "isConfigRow r \<and> js_includes (toLowerCase (rowName r)) ''logo''
      \<and> \<not> truthy (getValue r imageKeys [])"
  then show "processRow r st = st\<lparr>appConfig := (appConfig st)\<lparr>logoUrl := Some []\<rparr>\<rparr>"
    by (simp add: processRow_config configStep_def Let_def rowProcessedImg_unresolved)
next
  assume "isConfigRow r \<and> \<not> js_includes (toLowerCase (rowName r)) ''logo''
      \<and> (js_includes (toLowerCase (rowName r)) ''qr''
          \<or> js_includes (toLowerCase (rowName r)) ''payment'')
      \<and> \<not> truthy (getValue r imageKeys [])"
  then show "processRow r st = st\<lparr>appConfig := (appConfig st)\<lparr>qrCodeUrl := Some []\<rparr>\<rparr>"
    by (simp add: processRow_config configStep_def Let_def rowProcessedImg_unresolved)
next
  assume "isConfigRow r \<and> js_includes (toLowerCase (rowName r)) ''line''
      \<and> rowProcessedImg r = [] \<and> \<not> truthy (getValue r lineValueKeys [])"
  then show "lineOaId (appConfig (processRow r st)) = lineOaId (appConfig st)"
    by (simp add: processRow_config configStep_def Let_def linePossibleId_def)
qed

text \<open>
  The theorem after three rows that set the three keys: a bare logo row and a bare payment
  row erase their key, a bare LINE row keeps the identifier.
\<close>

theorem unresolved_image_erases_witness:
  "appConfig (processRows [logoRow, qrRow, lineIdRow] emptyAccum)
     = \<lparr>logoUrl = Some ''https://example.com/logo.png'',
        qrCodeUrl = Some ''https://example.com/qr.png'', lineOaId = Some ''@seoulgood''\<rparr>
   \<and> logoUrl (appConfig (processRow bareLogoRow (processRows [logoRow, qrRow, lineIdRow] emptyAccum)))
       = Some []
   \<and> qrCodeUrl (appConfig (processRow bareQrRow (processRows [logoRow, qrRow, lineIdRow] emptyAccum)))
       = Some []
   \<and> lineOaId (appConfig (processRow bareLineRow (processRows [logoRow, qrRow, lineIdRow] emptyAccum)))
       = Some ''@seoulgood''"
proof -
  let ?st = "processRows [logoRow, qrRow, lineIdRow] emptyAccum"
  have st: "appConfig ?st
     = \<lparr>logoUrl = Some ''https://example.com/logo.png'',
        qrCodeUrl = Some ''https://example.com/qr.png'', lineOaId = Some ''@seoulgood''\<rparr>"
    by code_simp
  have l: "isConfigRow bareLogoRow \<and> js_includes (toLowerCase (rowName bareLogoRow)) ''logo''
      \<and> \<not> truthy (getValue bareLogoRow imageKeys [])" by code_simp
  have c1: "logoUrl (appConfig (processRow bareLogoRow ?st)) = Some []"
    using unresolved_image_erases [of bareLogoRow ?st, THEN conjunct1] l by simp
  have q: "isConfigRow bareQrRow \<and> \<not> js_includes (toLowerCase (rowName bareQrRow)) ''logo''
      \<and> (js_includes (toLowerCase (rowName bareQrRow)) ''qr''
          \<or> js_includes (toLowerCase (rowName bareQrRow)) ''payment'')
      \<and> \<not> truthy (getValue bareQrRow imageKeys [])" by code_simp
  have c2: "qrCodeUrl (appConfig (processRow bareQrRow ?st)) = Some []"
    using unresolved_image_erases [of bareQrRow ?st, THEN conjunct2, THEN conjunct1] q by simp
  have n: "isConfigRow bareLineRow \<and> js_includes (toLowerCase (rowName bareLineRow)) ''line''
      \<and> rowProcessedImg bareLineRow = [] \<and> \<not> truthy (getValue bareLineRow lineValueKeys [])"
    by code_simp
  have c3: "lineOaId (appConfig (processRow bareLineRow ?st)) = Some ''@seoulgood''"
    using unresolved_image_erases [of bareLineRow ?st, THEN conjunct2, THEN conjunct2] n st
    by simp
  show ?thesis using st c1 c2 c3 by blast
qed

text \<open>
  Claim C10 as stated fails for a configuration row whose name contains \<open>qr\<close> and also
  \<open>logo\<close>, with no image: the logo branch is taken, \<open>logoUrl\<close> becomes the empty string
  and the earlier \<open>qrCodeUrl\<close> is not erased.
\<close>

theorem qr_logo_row_counterexample:
  "isConfigRow qrLogoRow
   \<and> js_includes (toLowerCase (rowName qrLogoRow)) ''qr''
   \<and> getValue qrLogoRow imageKeys [] = Undefined
   \<and> appConfig (processRows [qrRow] emptyAccum)
       = \<lparr>logoUrl = None, qrCodeUrl = Some ''https://example.com/qr.png'', lineOaId = None\<rparr>
   \<and> appConfig (processRows [qrRow, qrLogoRow] emptyAccum)
       = \<lparr>logoUrl = Some [], qrCodeUrl = Some ''https://example.com/qr.png'', lineOaId = None\<rparr>"
  by code_simp

section \<open>Properties: last write wins\<close>

lemma processRows_Nil [simp]: "processRows [] st = st"
  by (simp add: processRows_def)

lemma processRows_Cons [simp]: "processRows (r # rs) st = processRows rs (processRow r st)"
  by (simp add: processRows_def)

lemma processRows_append: "processRows (xs @ ys) st = processRows ys (processRows xs st)"
  by (simp add: processRows_def)

lemma processSheet_sheetData: "processSheet sh st = processRows (sheetData sh) st"
  by (simp add: processSheet_def sheetData_def Let_def)

lemma foldl_processSheet:
  "foldl (\<lambda>s sh. processSheet sh s) st wb = processRows (concat (map sheetData wb)) st"
  by (induction wb arbitrary: st) (simp_all add: processSheet_sheetData processRows_append)

lemma processWorkbook_rows: "processWorkbook wb = processRows (workbookRows wb) emptyAccum"
  by (simp add: processWorkbook_def workbookRows_def foldl_processSheet)

lemma processRow_item_config: "\<not> isConfigRow r \<Longrightarrow> appConfig (processRow r st) = appConfig st"
  by (simp add: processRow_def Let_def split: option.splits)

lemma logo_kept: "\<not> writesLogo r \<Longrightarrow> logoUrl (appConfig (processRow r st)) = logoUrl (appConfig st)"
  by (cases "isConfigRow r")
    (simp_all add: processRow_item_config processRow_config configStep_def Let_def writesLogo_def)

lemma qr_kept: "\<not> writesQr r \<Longrightarrow> qrCodeUrl (appConfig (processRow r st)) = qrCodeUrl (appConfig st)"
  by (cases "isConfigRow r")
    (auto simp: processRow_item_config processRow_config configStep_def Let_def writesQr_def)

lemma line_kept: "\<not> writesLine r \<Longrightarrow> lineOaId (appConfig (processRow r st)) = lineOaId (appConfig st)"
  by (cases "isConfigRow r")
    (auto simp: processRow_item_config processRow_config configStep_def Let_def writesLine_def)

lemma logo_kept_rows:
  "\<forall>r \<in> set rs. \<not> writesLogo r \<Longrightarrow> logoUrl (appConfig (processRows rs st)) = logoUrl (appConfig st)"
  by (induction rs arbitrary: st) (simp_all add: logo_kept)

lemma qr_kept_rows:
  "\<forall>r \<in> set rs. \<not> writesQr r \<Longrightarrow> qrCodeUrl (appConfig (processRows rs st)) = qrCodeUrl (appConfig st)"
  by (induction rs arbitrary: st) (simp_all add: qr_kept)

lemma line_kept_rows:
  "\<forall>r \<in> set rs. \<not> writesLine r \<Longrightarrow> lineOaId (appConfig (processRows rs st)) = lineOaId (appConfig st)"
  by (induction rs arbitrary: st) (simp_all add: line_kept)

lemma logo_written: "writesLogo r \<Longrightarrow> logoUrl (appConfig (processRow r st)) = Some (rowProcessedImg r)"
  by (simp add: writesLogo_def processRow_config configStep_def Let_def)

lemma qr_written: "writesQr r \<Longrightarrow> qrCodeUrl (appConfig (processRow r st)) = Some (rowProcessedImg r)"
  by (auto simp: writesQr_def processRow_config configStep_def Let_def)

lemma line_written:
  "writesLine r \<Longrightarrow> lineOaId (appConfig (processRow r st)) = Some (extractLineId (linePossibleId r))"
  by (simp add: writesLine_def processRow_config configStep_def Let_def)

text \<open>
  Claim C9. Take the rows of all sheets in processing order and, for a configuration key,
  the last row that writes the key. The configuration returned holds for that key the
  value this row writes, which is computed from this row alone: the processed image for
  \<open>logoUrl\<close> and \<open>qrCodeUrl\<close>, the extracted identifier for \<open>lineOaId\<close>. Earlier rows
  for the same key leave no trace.
\<close>

theorem config_last_write_wins:
  assumes "workbookRows wb = pre @ r # post"
  shows
    "(writesLogo r \<and> (\<forall>r' \<in> set post. \<not> writesLogo r')
        \<longrightarrow> logoUrl (config (menuData (processWorkbook wb))) = Some (rowProcessedImg r))
     \<and> (writesQr r \<and> (\<forall>r' \<in> set post. \<not> writesQr r')
        \<longrightarrow> qrCodeUrl (config (menuData (processWorkbook wb))) = Some (rowProcessedImg r))
     \<and> (writesLine r \<and> (\<forall>r' \<in> set post. \<not> writesLine r')
        \<longrightarrow> lineOaId (config (menuData (processWorkbook wb)))
            = Some (extractLineId (linePossibleId r)))"
proof -
  have run: "processWorkbook wb = processRows post (processRow r (processRows pre emptyAccum))"
    using assms by (simp add: processWorkbook_rows processRows_append)
  show ?thesis
    unfolding run by (simp add: menuData_def logo_kept_rows qr_kept_rows line_kept_rows
        logo_written qr_written line_written)
qed

text \<open>
  The theorem at a workbook of two sheets: the second sheet's logo replaces the first's,
  its payment row without image replaces the QR link by the empty string, and the LINE
  identifier of the first sheet stays, the later LINE row writing nothing.
\<close>

theorem config_last_write_wins_witness:
  "config (menuData (processWorkbook [logoSheet]))
     = \<lparr>logoUrl = Some ''https://example.com/logo.png'',
        qrCodeUrl = Some ''https://example.com/qr.png'', lineOaId = Some ''@seoulgood''\<rparr>
   \<and> config (menuData (processWorkbook [logoSheet, secondSheet]))
     = \<lparr>logoUrl = Some ''https://example.com/new.png'',
        qrCodeUrl = Some [], lineOaId = Some ''@seoulgood''\<rparr>"
proof -
  let ?wb = "[logoSheet, secondSheet]"
  let ?new = "[(''Category'', Str ''Config''), (''Name'', Str ''Shop logo''),
          (''Image'', Str ''https://example.com/new.png'')]"
  have first: "config (menuData (processWorkbook [logoSheet]))
     = \<lparr>logoUrl = Some ''https://example.com/logo.png'',
        qrCodeUrl = Some ''https://example.com/qr.png'', lineOaId = Some ''@seoulgood''\<rparr>"
    by code_simp
  have rows: "workbookRows ?wb = [logoRow, qrRow, lineIdRow, ?new, bareQrRow, bareLineRow]"
    by (simp add: workbookRows_def sheetData_def logoSheet_def secondSheet_def)
  have logo_split: "workbookRows ?wb = [logoRow, qrRow, lineIdRow] @ ?new # [bareQrRow, bareLineRow]"
    unfolding rows by simp
  have qr_split: "workbookRows ?wb = [logoRow, qrRow, lineIdRow, ?new] @ bareQrRow # [bareLineRow]"
    unfolding rows by simp
  have line_split: "workbookRows ?wb = [logoRow, qrRow] @ lineIdRow # [?new, bareQrRow, bareLineRow]"
    unfolding rows by simp
  have w1: "writesLogo ?new" by code_simp
  have w1': "\<not> writesLogo bareQrRow" "\<not> writesLogo bareLineRow" by code_simp+
  have v1: "rowProcessedImg ?new = ''https://example.com/new.png''" by code_simp
  have c1: "logoUrl (config (menuData (processWorkbook ?wb))) = Some ''https://example.com/new.png''"
    using config_last_write_wins [OF logo_split, THEN conjunct1] w1 w1' v1 by simp
  have w2: "writesQr bareQrRow" by code_simp
  have w2': "\<not> writesQr bareLineRow" by code_simp
  have v2: "rowProcessedImg bareQrRow = []" by code_simp
  have c2: "qrCodeUrl (config (menuData (processWorkbook ?wb))) = Some []"
    using config_last_write_wins [OF qr_split, THEN conjunct2, THEN conjunct1] w2 w2' v2 by simp
  have w3: "writesLine lineIdRow" by code_simp
  have w3': "\<not> writesLine ?new" "\<not> writesLine bareQrRow" "\<not> writesLine bareLineRow"
    by code_simp+
  have v3: "extractLineId (linePossibleId lineIdRow) = ''@seoulgood''" by code_simp
  have c3: "lineOaId (config (menuData (processWorkbook ?wb))) = Some ''@seoulgood''"
    using config_last_write_wins [OF line_split, THEN conjunct2, THEN conjunct2] w3 w3' v3 by simp
  have "config (menuData (processWorkbook ?wb))
     = \<lparr>logoUrl = Some ''https://example.com/new.png'',
        qrCodeUrl = Some [], lineOaId = Some ''@seoulgood''\<rparr>"
    using c1 c2 c3 by (cases "config (menuData (processWorkbook ?wb))") simp
  with first show ?thesis by blast
qed

section \<open>Properties: option merging\<close>

lemma updateFirst_none: "find P xs = None \<Longrightarrow> updateFirst P f xs = xs"
  by (induction xs) (auto split: if_splits)

lemma updateFirst_append: "find P xs = None \<Longrightarrow> updateFirst P f (xs @ ys) = xs @ updateFirst P f ys"
  by (induction xs) (auto split: if_splits)

lemma find_updateFirst: "find P xs = Some x \<Longrightarrow> P (f x) \<Longrightarrow> find P (updateFirst P f xs) = Some (f x)"
  by (induction xs) (auto split: if_splits)

lemma updateFirst_fixed: "find P xs = Some x \<Longrightarrow> f x = x \<Longrightarrow> updateFirst P f xs = xs"
  by (induction xs) (auto split: if_splits)

lemma find_append_none: "find P xs = None \<Longrightarrow> find P (xs @ ys) = find P ys"
  by (induction xs) (auto split: if_splits)

lemma find_Some_holds: "find P xs = Some x \<Longrightarrow> P x"
  by (induction xs) (auto split: if_splits)

lemma pushChoice_name [simp]: "o_name (pushChoice ch g) = o_name g"
  by (simp add: pushChoice_def)

lemma pushChoice_count:
  "length (filter (\<lambda>ch. c_name ch = c) (o_choices (pushChoice \<lparr>c_name = c, c_priceModifier = pm\<rparr> g)))
     = max 1 (length (filter (\<lambda>ch. c_name ch = c) (o_choices g)))"
proof (cases "list_ex (\<lambda>ch. c_name ch = c) (o_choices g)")
  case True
  then have "filter (\<lambda>ch. c_name ch = c) (o_choices g) \<noteq> []"
    by (simp add: list_ex_iff filter_empty_conv)
  then have "1 \<le> length (filter (\<lambda>ch. c_name ch = c) (o_choices g))"
    by (cases "filter (\<lambda>ch. c_name ch = c) (o_choices g)") auto
  with True show ?thesis by (simp add: pushChoice_def)
next
  case False
  then have "filter (\<lambda>ch. c_name ch = c) (o_choices g) = []"
    by (simp add: list_ex_iff filter_empty_conv)
  with False show ?thesis by (simp add: pushChoice_def)
qed

lemma pushChoice_present:
  "list_ex (\<lambda>ch. c_name ch = c) (o_choices (pushChoice \<lparr>c_name = c, c_priceModifier = pm\<rparr> g))"
  by (simp add: pushChoice_def list_ex_iff)

lemma pushChoice_again:
  "list_ex (\<lambda>ch. c_name ch = c) (o_choices g) \<Longrightarrow> pushChoice \<lparr>c_name = c, c_priceModifier = pm\<rparr> g = g"
  by (simp add: pushChoice_def)

text \<open>After the merge, the group that \<open>find\<close> returns holds the choice.\<close>

lemma addRowChoice_find:
  "\<exists>grp. find (\<lambda>opt. o_name opt = g) (addRowChoice g c pm opts) = Some grp
         \<and> list_ex (\<lambda>ch. c_name ch = c) (o_choices grp)
         \<and> length (filter (\<lambda>ch. c_name ch = c) (o_choices grp)) = max 1 (optCount opts g c)"
proof (cases "find (\<lambda>opt. o_name opt = g) opts")
  case None
  let ?new = "pushChoice \<lparr>c_name = c, c_priceModifier = pm\<rparr> \<lparr>o_name = g, o_choices = []\<rparr>"
  have "addRowChoice g c pm opts = opts @ [?new]"
    using None by (simp add: addRowChoice_def updateFirst_append)
  then have "find (\<lambda>opt. o_name opt = g) (addRowChoice g c pm opts) = Some ?new"
    using None by (simp add: find_append_none)
  moreover have "list_ex (\<lambda>ch. c_name ch = c) (o_choices ?new)"
    by (rule pushChoice_present)
  moreover have "length (filter (\<lambda>ch. c_name ch = c) (o_choices ?new)) = max 1 (optCount opts g c)"
    using None by (simp add: pushChoice_count optCount_def)
  ultimately show ?thesis by blast
next
  case (Some grp)
  let ?grp = "pushChoice \<lparr>c_name = c, c_priceModifier = pm\<rparr> grp"
  have "o_name grp = g" using Some by (auto dest: find_Some_holds)
  then have "find (\<lambda>opt. o_name opt = g) (addRowChoice g c pm opts) = Some ?grp"
    using Some by (simp add: addRowChoice_def find_updateFirst)
  moreover have "list_ex (\<lambda>ch. c_name ch = c) (o_choices ?grp)"
    by (rule pushChoice_present)
  moreover have "length (filter (\<lambda>ch. c_name ch = c) (o_choices ?grp)) = max 1 (optCount opts g c)"
    using Some by (simp add: pushChoice_count optCount_def)
  ultimately show ?thesis by blast
qed

lemma addRowChoice_count: "optCount (addRowChoice g c pm opts) g c = max 1 (optCount opts g c)"
  using addRowChoice_find [of g c pm opts] by (auto simp: optCount_def)

lemma addRowChoice_again:
  "addRowChoice g c pm' (addRowChoice g c pm opts) = addRowChoice g c pm opts"
proof -
  obtain grp where f: "find (\<lambda>opt. o_name opt = g) (addRowChoice g c pm opts) = Some grp"
    and ex: "list_ex (\<lambda>ch. c_name ch = c) (o_choices grp)"
    using addRowChoice_find [of g c pm opts] by blast
  have "addRowChoice g c pm' (addRowChoice g c pm opts)
      = updateFirst (\<lambda>opt. o_name opt = g) (pushChoice \<lparr>c_name = c, c_priceModifier = pm'\<rparr>)
          (addRowChoice g c pm opts)"
    using f by (simp add: addRowChoice_def [of g c pm'])
  also have "\<dots> = addRowChoice g c pm opts"
    using f ex by (intro updateFirst_fixed [of _ _ grp]) (simp_all add: pushChoice_again)
  finally show ?thesis .
qed

text \<open>A row whose group and choice cells resolve to non-empty trimmed names takes case 1.\<close>

lemma parseOptions_rowBased:
  assumes "truthy (getValue r optGroupKeys [])" and "truthy (getValue r optChoiceKeys [])"
    and "trim (toStr (getValue r optGroupKeys [])) = g" and "g \<noteq> []"
    and "trim (toStr (getValue r optChoiceKeys [])) = c" and "c \<noteq> []"
  shows "parseOptions r opts
           = addRowChoice g c (numberOrZero (getValue r optPriceModKeys [])) opts"
  using assms by (simp add: parseOptions_def rowBasedOption_def addRowChoice_def Let_def)

lemma processRow_existing:
  assumes "\<not> isConfigRow r" and "truthy (rowRawName r)"
    and "map_of (groupedItems st) (rowName r) = Some it"
  shows "processRow r st =
           st\<lparr>groupedItems :=
                AList.update (rowName r) (it\<lparr>i_options := parseOptions r (i_options it)\<rparr>)
                  (groupedItems st)\<rparr>"
  using assms by (simp add: processRow_def Let_def)

text \<open>
  After an item row has been folded in, its item is in the accumulator, with the options
  the row's parsing produced from those it had before (none for a new item).
\<close>

lemma processRow_item_after:
  assumes "\<not> isConfigRow r" and "truthy (rowRawName r)"
    and "rowName r \<notin> set objectPrototypeKeys \<or> map_of (groupedItems st) (rowName r) \<noteq> None"
  shows "\<exists>it'. map_of (groupedItems (processRow r st)) (rowName r) = Some it'
           \<and> i_options it' =
               parseOptions r (case map_of (groupedItems st) (rowName r) of
                                 None \<Rightarrow> [] | Some it \<Rightarrow> i_options it)"
proof (cases "map_of (groupedItems st) (rowName r)")
  case None
  with assms have "processRow r st =
           st\<lparr>groupedItems := groupedItems st
                 @ [(rowName r, (newItem r (length (groupedItems st)))\<lparr>i_options := parseOptions r []\<rparr>)]\<rparr>"
    by (intro processRow_creates) auto
  with None show ?thesis by (simp add: map_add_def)
next
  case (Some it)
  with assms have "processRow r st =
           st\<lparr>groupedItems :=
                AList.update (rowName r) (it\<lparr>i_options := parseOptions r (i_options it)\<rparr>)
                  (groupedItems st)\<rparr>"
    by (intro processRow_existing) auto
  with Some show ?thesis by (simp add: AList.update_conv')
qed

text \<open>
  Claim C4. Take two item rows for the same item: both resolve the same name, under which
  the accumulator holds an item once the first row is folded (it does unless the name is
  one \<open>groupedItems\<close> inherits), and both resolve the same non-empty group name and the
  same non-empty choice name, with any price modifiers. Folding the second after the first changes nothing: the
  accumulator is the one the first row left. And the group holds the choice exactly once
  when it did not hold it before the two rows; a choice already present is never added
  again, so the count is the earlier count or 1, whichever is larger.
\<close>

theorem row_option_merge_idempotent:
  assumes "\<not> isConfigRow r1" and "\<not> isConfigRow r2"
    and "truthy (rowRawName r1)" and "truthy (rowRawName r2)"
    and "rowName r1 = n" and "rowName r2 = n"
    and "map_of (groupedItems (processRow r1 st)) n \<noteq> None"
    and "truthy (getValue r1 optGroupKeys [])" and "truthy (getValue r2 optGroupKeys [])"
    and "truthy (getValue r1 optChoiceKeys [])" and "truthy (getValue r2 optChoiceKeys [])"
    and "trim (toStr (getValue r1 optGroupKeys [])) = g"
    and "trim (toStr (getValue r2 optGroupKeys [])) = g"
    and "trim (toStr (getValue r1 optChoiceKeys [])) = c"
    and "trim (toStr (getValue r2 optChoiceKeys [])) = c"
    and "g \<noteq> []" and "c \<noteq> []"
  shows "processRow r2 (processRow r1 st) = processRow r1 st
         \<and> choiceCount (processRow r2 (processRow r1 st)) n g c = max 1 (choiceCount st n g c)"
proof -
  let ?opts0 = "case map_of (groupedItems st) n of None \<Rightarrow> [] | Some it \<Rightarrow> i_options it"
  let ?pm1 = "numberOrZero (getValue r1 optPriceModKeys [])"
  let ?pm2 = "numberOrZero (getValue r2 optPriceModKeys [])"
  let ?st1 = "processRow r1 st"
  have p1: "\<And>opts. parseOptions r1 opts = addRowChoice g c ?pm1 opts"
    using assms by (intro parseOptions_rowBased) auto
  have p2: "\<And>opts. parseOptions r2 opts = addRowChoice g c ?pm2 opts"
    using assms by (intro parseOptions_rowBased) auto
  have made: "n \<notin> set objectPrototypeKeys \<or> map_of (groupedItems st) n \<noteq> None"
  proof (rule ccontr)
    assume "\<not> (n \<notin> set objectPrototypeKeys \<or> map_of (groupedItems st) n \<noteq> None)"
    then have "processRow r1 st = st"
      using assms(1,3,5) by (simp add: processRow_def)
    with \<open>\<not> (n \<notin> set objectPrototypeKeys \<or> map_of (groupedItems st) n \<noteq> None)\<close>
      assms(7) show False by simp
  qed
  obtain it1 where it1: "map_of (groupedItems ?st1) n = Some it1"
    and o1: "i_options it1 = addRowChoice g c ?pm1 ?opts0"
    using processRow_item_after [of r1 st] assms(1,3,5) made p1 by auto
  have "parseOptions r2 (i_options it1) = i_options it1"
    unfolding p2 o1 by (rule addRowChoice_again)
  then have same: "it1\<lparr>i_options := parseOptions r2 (i_options it1)\<rparr> = it1" by simp
  have "processRow r2 ?st1 =
          ?st1\<lparr>groupedItems :=
                AList.update n (it1\<lparr>i_options := parseOptions r2 (i_options it1)\<rparr>)
                  (groupedItems ?st1)\<rparr>"
    using processRow_existing [of r2 ?st1 it1] assms it1 by simp
  also have "\<dots> = ?st1"
    unfolding same using it1 by (simp add: AList.update_triv)
  finally have idem: "processRow r2 ?st1 = ?st1" .
  have "choiceCount ?st1 n g c = optCount (addRowChoice g c ?pm1 ?opts0) g c"
    using it1 o1 by (simp add: choiceCount_def)
  also have "\<dots> = max 1 (optCount ?opts0 g c)"
    by (rule addRowChoice_count)
  also have "optCount ?opts0 g c = choiceCount st n g c"
    by (simp add: choiceCount_def optCount_def split: option.splits)
  finally have "choiceCount ?st1 n g c = max 1 (choiceCount st n g c)" .
  with idem show ?thesis by simp
qed

text \<open>
  The theorem at two Bibimbap rows that both add Pork to Protein, with modifiers 0 and 10:
  one item, one group, one choice, carrying the first modifier.
\<close>

theorem row_option_merge_idempotent_witness:
  "processRow porkAgainRow (processRow porkRow emptyAccum) = processRow porkRow emptyAccum
   \<and> choiceCount (processRow porkAgainRow (processRow porkRow emptyAccum))
        ''Bibimbap'' ''Protein'' ''Pork'' = 1
   \<and> groupedItems (processRow porkAgainRow (processRow porkRow emptyAccum))
       = [(''Bibimbap'', bibimbapItem)]"
proof -
  have a: "\<not> isConfigRow porkRow" "\<not> isConfigRow porkAgainRow"
    "truthy (rowRawName porkRow)" "truthy (rowRawName porkAgainRow)"
    "rowName porkRow = ''Bibimbap''" "rowName porkAgainRow = ''Bibimbap''"
    "map_of (groupedItems (processRow porkRow emptyAccum)) ''Bibimbap'' \<noteq> None"
    by code_simp+
  have b: "truthy (getValue porkRow optGroupKeys [])" "truthy (getValue porkAgainRow optGroupKeys [])"
    "truthy (getValue porkRow optChoiceKeys [])" "truthy (getValue porkAgainRow optChoiceKeys [])"
    by code_simp+
  have c: "trim (toStr (getValue porkRow optGroupKeys [])) = ''Protein''"
    "trim (toStr (getValue porkAgainRow optGroupKeys [])) = ''Protein''"
    "trim (toStr (getValue porkRow optChoiceKeys [])) = ''Pork''"
    "trim (toStr (getValue porkAgainRow optChoiceKeys [])) = ''Pork''"
    by code_simp+
  have d: "''Protein'' \<noteq> []" "''Pork'' \<noteq> []" by simp_all
  have zero: "choiceCount emptyAccum ''Bibimbap'' ''Protein'' ''Pork'' = 0"
    by (simp add: choiceCount_def emptyAccum_def)
  note inst = row_option_merge_idempotent [OF a b c d]
  have once: "groupedItems (processRow porkRow emptyAccum) = [(''Bibimbap'', bibimbapItem)]"
    by code_simp
  have i1: "processRow porkAgainRow (processRow porkRow emptyAccum) = processRow porkRow emptyAccum"
    using inst by (rule conjunct1)
  have i2: "choiceCount (processRow porkAgainRow (processRow porkRow emptyAccum))
        ''Bibimbap'' ''Protein'' ''Pork'' = 1"
    using inst [THEN conjunct2] unfolding zero by simp
  have i3: "groupedItems (processRow porkAgainRow (processRow porkRow emptyAccum))
       = [(''Bibimbap'', bibimbapItem)]"
    unfolding i1 by (rule once)
  from i1 i2 i3 show ?thesis by blast
qed

lemma optionsExtend_refl: "optionsExtend xs xs"
  by (simp add: optionsExtend_def)

lemma optionsExtend_append: "optionsExtend xs (xs @ ys)"
  by (simp add: optionsExtend_def nth_append)

lemma optionsExtend_trans:
  "optionsExtend xs ys \<Longrightarrow> optionsExtend ys zs \<Longrightarrow> optionsExtend xs zs"
  unfolding optionsExtend_def
  by (metis (no_types, lifting) le_trans less_le_trans prefix_order.order_trans)

lemma length_updateFirst [simp]: "length (updateFirst P f xs) = length xs"
  by (induction xs) auto

lemma nth_updateFirst:
  "j < length xs \<Longrightarrow> updateFirst P f xs ! j = xs ! j \<or> updateFirst P f xs ! j = f (xs ! j)"
proof (induction xs arbitrary: j)
  case Nil
  then show ?case by simp
next
  case (Cons x xs)
  then show ?case by (cases j) auto
qed

lemma optionsExtend_updateFirst:
  assumes "\<And>x. o_name (f x) = o_name x \<and> prefix (o_choices x) (o_choices (f x))"
  shows "optionsExtend xs (updateFirst P f xs)"
  unfolding optionsExtend_def
proof (intro conjI allI impI)
  show "length xs \<le> length (updateFirst P f xs)" by simp
next
  fix j assume "j < length xs"
  from nth_updateFirst [OF this, of P f]
  show "o_name (updateFirst P f xs ! j) = o_name (xs ! j)"
    using assms by auto
next
  fix j assume "j < length xs"
  from nth_updateFirst [OF this, of P f]
  show "prefix (o_choices (xs ! j)) (o_choices (updateFirst P f xs ! j))"
    using assms by auto
qed

lemma pushChoice_grows: "prefix (o_choices g) (o_choices (pushChoice ch g))"
  by (simp add: pushChoice_def)

lemma foldl_pushChoice_grows:
  "o_name (foldl (\<lambda>g nc. pushChoice nc g) g ncs) = o_name g
   \<and> prefix (o_choices g) (o_choices (foldl (\<lambda>g nc. pushChoice nc g) g ncs))"
proof (induction ncs arbitrary: g)
  case Nil
  then show ?case by simp
next
  case (Cons nc ncs)
  have "prefix (o_choices g) (o_choices (pushChoice nc g))" by (rule pushChoice_grows)
  with Cons [of "pushChoice nc g"] show ?case
    by (auto intro: prefix_order.order_trans)
qed

lemma addRowChoice_extends: "optionsExtend opts (addRowChoice g c pm opts)"
proof -
  let ?opts1 = "if find (\<lambda>opt. o_name opt = g) opts = None
                then opts @ [\<lparr>o_name = g, o_choices = []\<rparr>] else opts"
  have "optionsExtend opts ?opts1"
    by (simp add: optionsExtend_refl optionsExtend_append)
  moreover have "optionsExtend ?opts1
      (updateFirst (\<lambda>opt. o_name opt = g) (pushChoice \<lparr>c_name = c, c_priceModifier = pm\<rparr>) ?opts1)"
    by (intro optionsExtend_updateFirst) (simp add: pushChoice_grows)
  ultimately show ?thesis
    unfolding addRowChoice_def by (rule optionsExtend_trans)
qed

lemma rowBasedOption_Some:
  "rowBasedOption r opts = Some opts' \<Longrightarrow>
     opts' = addRowChoice (trim (toStr (getValue r optGroupKeys [])))
               (trim (toStr (getValue r optChoiceKeys [])))
               (numberOrZero (getValue r optPriceModKeys [])) opts"
  unfolding rowBasedOption_def addRowChoice_def Let_def
  by (auto split: if_splits)

lemma rowBasedOption_extends: "rowBasedOption r opts = Some opts' \<Longrightarrow> optionsExtend opts opts'"
  by (auto dest!: rowBasedOption_Some simp: addRowChoice_extends)

lemma commaOption_extends: "optionsExtend opts (commaOption r opts)"
  by (simp add: commaOption_def Let_def optionsExtend_refl optionsExtend_append
      optionsExtend_updateFirst foldl_pushChoice_grows)

lemma parseOptions_extends: "optionsExtend opts (parseOptions r opts)"
  by (simp add: parseOptions_def rowBasedOption_extends commaOption_extends split: option.splits)

text \<open>
  Claim C3. When an item row resolves the name of an item already in the accumulator, the
  row leaves that item's id, price, description and image (and its name, category and
  spicy flag) as they were; the item's option groups keep their places and names and each
  keeps its earlier choices as the beginning of its choices, so option data is only
  appended; no item is added, every other item is untouched, and so is the configuration.
\<close>

theorem existing_item_only_gains_options:
  assumes "\<not> isConfigRow r" and "truthy (rowRawName r)"
    and "map_of (groupedItems st) (rowName r) = Some it"
  shows "\<exists>it'. map_of (groupedItems (processRow r st)) (rowName r) = Some it'
           \<and> i_id it' = i_id it \<and> i_price it' = i_price it
           \<and> i_description it' = i_description it \<and> i_image it' = i_image it
           \<and> i_name it' = i_name it \<and> i_category it' = i_category it
           \<and> i_isSpicy it' = i_isSpicy it
           \<and> length (i_options it) \<le> length (i_options it')
           \<and> (\<forall>j. j < length (i_options it) \<longrightarrow>
                 o_name (i_options it' ! j) = o_name (i_options it ! j)
                 \<and> prefix (o_choices (i_options it ! j)) (o_choices (i_options it' ! j)))
           \<and> map fst (groupedItems (processRow r st)) = map fst (groupedItems st)
           \<and> (\<forall>k. k \<noteq> rowName r \<longrightarrow>
                 map_of (groupedItems (processRow r st)) k = map_of (groupedItems st) k)
           \<and> appConfig (processRow r st) = appConfig st"
proof -
  let ?it' = "it\<lparr>i_options := parseOptions r (i_options it)\<rparr>"
  have step: "processRow r st =
           st\<lparr>groupedItems := AList.update (rowName r) ?it' (groupedItems st)\<rparr>"
    using assms by (rule processRow_existing)
  have key: "rowName r \<in> fst ` set (groupedItems st)"
    using assms(3) by (meson domI domIff map_of_eq_None_iff)
  have "map_of (groupedItems (processRow r st)) (rowName r) = Some ?it'"
    unfolding step by (simp add: AList.update_conv')
  moreover have "optionsExtend (i_options it) (i_options ?it')"
    by (simp add: parseOptions_extends)
  moreover have "map fst (groupedItems (processRow r st)) = map fst (groupedItems st)"
    unfolding step using key by (simp add: AList.update_keys)
  moreover have "\<forall>k. k \<noteq> rowName r \<longrightarrow>
                 map_of (groupedItems (processRow r st)) k = map_of (groupedItems st) k"
    unfolding step by (simp add: AList.update_conv')
  moreover have "appConfig (processRow r st) = appConfig st"
    unfolding step by simp
  ultimately show ?thesis
    unfolding optionsExtend_def by (intro exI [of _ ?it']) simp
qed

text \<open>
  The theorem at the round trip of the specification: an item row with a row-based option,
  then a row of the same name with other price, description and image cells and a comma
  separated option list. There is exactly one item, it carries both option groups, and its
  price, description and image are those of the first row.
\<close>

theorem existing_item_only_gains_options_witness:
  "groupedItems (processRows [porkRow, sizeRow] emptyAccum)
     = [(''Bibimbap'',
         bibimbapItem\<lparr>i_options :=
           [\<lparr>o_name = ''Protein'', o_choices = [\<lparr>c_name = ''Pork'', c_priceModifier = 0\<rparr>]\<rparr>,
            \<lparr>o_name = ''Size'',
               o_choices = [\<lparr>c_name = ''S'', c_priceModifier = 0\<rparr>,
                            \<lparr>c_name = ''M'', c_priceModifier = 0\<rparr>]\<rparr>]\<rparr>)]
   \<and> (\<exists>it'. map_of (groupedItems (processRows [porkRow, sizeRow] emptyAccum)) ''Bibimbap'' = Some it'
          \<and> i_id it' = ''item-0'' \<and> i_price it' = 150
          \<and> i_description it' = Some ''Mixed rice''
          \<and> i_image it' = ''https://example.com/b.png'')"
proof -
  let ?st1 = "processRow porkRow emptyAccum"
  have st1: "groupedItems ?st1 = [(''Bibimbap'', bibimbapItem)]" by code_simp
  have h1: "\<not> isConfigRow sizeRow" by code_simp
  have h2: "truthy (rowRawName sizeRow)" by code_simp
  have n: "rowName sizeRow = ''Bibimbap''" by code_simp
  have h3: "map_of (groupedItems ?st1) (rowName sizeRow) = Some bibimbapItem"
    unfolding st1 n by simp
  from existing_item_only_gains_options [OF h1 h2 h3]
  obtain it' where a: "map_of (groupedItems (processRow sizeRow ?st1)) (rowName sizeRow) = Some it'"
    and b: "i_id it' = i_id bibimbapItem" "i_price it' = i_price bibimbapItem"
      "i_description it' = i_description bibimbapItem" "i_image it' = i_image bibimbapItem"
    by blast
  have frame: "\<exists>it'. map_of (groupedItems (processRows [porkRow, sizeRow] emptyAccum)) ''Bibimbap'' = Some it'
          \<and> i_id it' = ''item-0'' \<and> i_price it' = 150
          \<and> i_description it' = Some ''Mixed rice''
          \<and> i_image it' = ''https://example.com/b.png''"
    using a b unfolding n by (auto simp: bibimbapItem_def)
  have full: "groupedItems (processRows [porkRow, sizeRow] emptyAccum)
     = [(''Bibimbap'',
         bibimbapItem\<lparr>i_options :=
           [\<lparr>o_name = ''Protein'', o_choices = [\<lparr>c_name = ''Pork'', c_priceModifier = 0\<rparr>]\<rparr>,
            \<lparr>o_name = ''Size'',
               o_choices = [\<lparr>c_name = ''S'', c_priceModifier = 0\<rparr>,
                            \<lparr>c_name = ''M'', c_priceModifier = 0\<rparr>]\<rparr>]\<rparr>)]"
    by code_simp
  from full frame show ?thesis by blast
qed

section \<open>Properties: item names\<close>

text \<open>
  Two facts about names that hold on the code: a row whose name does not resolve to a
  truthy cell changes neither the items nor the configuration, and the names of the items
  returned are pairwise different.
\<close>

lemma nameless_row_ignored: "\<not> truthy (rowRawName r) \<Longrightarrow> processRow r st = st"
proof -
  assume a: "\<not> truthy (rowRawName r)"
  then have "rowName r = []" by (simp add: rowName_def trim_def)
  then have "configStep r (appConfig st) = appConfig st"
    by (simp add: configStep_def toLowerCase_def)
  with a show ?thesis by (simp add: processRow_def)
qed

lemma keyedByName_empty: "keyedByName emptyAccum"
  by (simp add: keyedByName_def emptyAccum_def)

lemma list_all_update:
  "list_all P al \<Longrightarrow> P (k, v) \<Longrightarrow> list_all P (AList.update k v al)"
  by (induction al) auto

lemma keyedByName_processRow: "keyedByName st \<Longrightarrow> keyedByName (processRow r st)"
proof -
  assume inv: "keyedByName st"
  show ?thesis
  proof (cases "isConfigRow r \<or> \<not> truthy (rowRawName r)")
    case True
    with inv show ?thesis
      by (auto simp: processRow_def keyedByName_def)
  next
    case False
    show ?thesis
    proof (cases "map_of (groupedItems st) (rowName r)")
      case None
      show ?thesis
      proof (cases "rowName r \<in> set objectPrototypeKeys")
        case True
        with None False inv show ?thesis by (simp add: processRow_def)
      next
        case notproto: False
        have new: "rowName r \<notin> fst ` set (groupedItems st)"
          using None by (simp add: map_of_eq_None_iff)
        have "processRow r st =
           st\<lparr>groupedItems := groupedItems st
                 @ [(rowName r, (newItem r (length (groupedItems st)))\<lparr>i_options := parseOptions r []\<rparr>)]\<rparr>"
          using False None notproto by (intro processRow_creates) auto
        with inv new show ?thesis
          by (simp add: keyedByName_def newItem_def Let_def)
      qed
    next
      case (Some it)
      have "(rowName r, it) \<in> set (groupedItems st)"
        using Some by (rule map_of_SomeD)
      with inv have nm: "i_name it = rowName r"
        by (auto simp: keyedByName_def list_all_iff)
      have "processRow r st =
           st\<lparr>groupedItems :=
                AList.update (rowName r) (it\<lparr>i_options := parseOptions r (i_options it)\<rparr>)
                  (groupedItems st)\<rparr>"
        using False Some by (intro processRow_existing) auto
      with inv nm show ?thesis
        by (simp add: keyedByName_def AList.distinct_update list_all_update)
    qed
  qed
qed

lemma keyedByName_processRows: "keyedByName st \<Longrightarrow> keyedByName (processRows rs st)"
  by (induction rs arbitrary: st) (simp_all add: keyedByName_processRow)

lemma objectValues_names:
  assumes "distinct (map fst kvs)" and "list_all (\<lambda>kv. f (snd kv) = fst kv) kvs"
  shows "distinct (map f (objectValues kvs))"
proof -
  let ?P = "\<lambda>kv. arrayIndex (fst kv) \<noteq> None"
  let ?ys = "sort_key (\<lambda>kv. the (arrayIndex (fst kv))) (filter ?P kvs)
              @ filter (\<lambda>kv. arrayIndex (fst kv) = None) kvs"
  have d: "distinct kvs" using assms(1) by (simp add: distinct_map)
  have inj: "inj_on fst (set kvs)" using assms(1) by (simp add: distinct_map)
  have set_ys: "set ?ys = set kvs" by auto
  have "distinct ?ys" using d by auto
  with inj set_ys have "distinct (map fst ?ys)"
    by (simp only: distinct_map)
  moreover have "map f (objectValues kvs) = map fst ?ys"
    unfolding objectValues_def map_map
  proof (rule map_cong [OF refl])
    fix kv assume "kv \<in> set ?ys"
    then have "kv \<in> set kvs" using set_ys by blast
    with assms(2) show "(f \<circ> snd) kv = fst kv" by (simp add: list_all_iff)
  qed
  ultimately show ?thesis by simp
qed

lemma item_names_distinct: "distinct (map i_name (items (menuData (processWorkbook wb))))"
proof -
  have "keyedByName (processWorkbook wb)"
    unfolding processWorkbook_rows by (intro keyedByName_processRows keyedByName_empty)
  then show ?thesis
    by (simp add: menuData_def keyedByName_def objectValues_names)
qed

text \<open>
  Claim C8 fails on the code at a name cell that holds only white space. The row is
  skipped when \<open>rawName\<close> is falsy, but the test is made on the raw cell, not on the
  trimmed name: a single space is truthy, its trimmed name is empty, and an item with the
  empty name is created and returned.
\<close>

theorem blank_name_row_creates_nameless_item:
  "items (fetchMenuFromSheet
            (Resolved \<lparr>contentType = None, ok = True, body = Some [blankNameSheet]\<rparr>))
     = [\<lparr>i_id = ''item-0'', i_category = ''General'', i_name = [], i_price = 50,
         i_description = None, i_image = ''https://picsum.photos/seed//300/200'',
         i_isSpicy = False, i_options = []\<rparr>]"
  by code_simp

end
